theory Spec2Isabelle
  imports Complex_Main "HOL-Library.Sublist"
begin

section \<open>Data model\<close>

text \<open>
  Calendar dates are day ordinals (\<open>int\<close>). The detectors print every date with
  \<open>strftime('%Y-%m-%d')\<close> from a pandas timestamp (years 1677 to 2262, four digits), so
  the order of the printed strings that \<open>sorted\<close> and \<open>max\<close> use in
  \<open>_merge_bloom_events\<close> is the order of the days, and
  \<open>(strptime(a) - strptime(b)).days\<close> is the difference of the ordinals.
  Floats are modelled as \<open>real\<close>; a missing value (NaN) is \<open>None\<close>.
\<close>

type_synonym date = int

record bloom =
  start_date :: date
  peak_date :: date
  end_date :: date
  duration_days :: int
  peak_ndvi :: real
  peak_evi :: real
  bloom_intensity :: real
  confidence_score :: real
  detection_method :: string

definition ndvi_bloom_threshold :: real where
  "ndvi_bloom_threshold = 4 / 10"

definition evi_bloom_threshold :: real where
  "evi_bloom_threshold = 3 / 10"

definition min_bloom_duration :: int where
  "min_bloom_duration = 14"

definition max_bloom_duration :: int where
  "max_bloom_duration = 120"

section \<open>EventMerger: \<open>_merge_bloom_events\<close>\<close>

text \<open>The body of the \<open>if\<close> branch of the loop: the fields written when a bloom is merged
  into \<open>current_bloom\<close>. \<open>end_date\<close> is written first and the duration is recomputed from
  the new \<open>end_date\<close> and the unchanged \<open>start_date\<close>.\<close>

definition merge_into :: "bloom \<Rightarrow> bloom \<Rightarrow> bloom" where
  "merge_into cur b =
     cur\<lparr> end_date := max (end_date cur) (end_date b),
          peak_ndvi := max (peak_ndvi cur) (peak_ndvi b),
          peak_evi := max (peak_evi cur) (peak_evi b),
          bloom_intensity := max (bloom_intensity cur) (bloom_intensity b),
          confidence_score := max (confidence_score cur) (confidence_score b),
          duration_days := max (end_date cur) (end_date b) - start_date cur \<rparr>"

text \<open>One iteration of the loop over \<open>sorted_blooms[1:]\<close>; the state is
  \<open>(merged, current_bloom)\<close>.\<close>

definition merge_step :: "bloom list \<times> bloom \<Rightarrow> bloom \<Rightarrow> bloom list \<times> bloom" where
  "merge_step s b =
     (case s of (merged, cur) \<Rightarrow>
        if start_date b - end_date cur \<le> 7 then (merged, merge_into cur b)
        else (merged @ [cur], b))"

text \<open>The list \<open>merged\<close> after the last append, before the duration filter.\<close>

definition merge_scan :: "bloom list \<Rightarrow> bloom list" where
  "merge_scan sorted_blooms =
     (case sorted_blooms of
        [] \<Rightarrow> []
      | b0 # rest \<Rightarrow> (case foldl merge_step ([], b0) rest of (merged, cur) \<Rightarrow> merged @ [cur]))"

text \<open>\<open>sorted(bloom_events, key=start_date)\<close> is stable, as \<open>sort_key\<close> is.\<close>

definition merge_bloom_events :: "bloom list \<Rightarrow> bloom list" where
  "merge_bloom_events bloom_events =
     filter (\<lambda>b. min_bloom_duration \<le> duration_days b)
       (merge_scan (sort_key start_date bloom_events))"

text \<open>The relation the merger establishes between an earlier and a later output event.\<close>

definition gap_before :: "bloom \<Rightarrow> bloom \<Rightarrow> bool" where
  "gap_before a b = (start_date a \<le> start_date b \<and> end_date a + 7 < start_date b)"

subsection \<open>Sample candidates\<close>

definition ex_a :: bloom where
  "ex_a = \<lparr> start_date = 0, peak_date = 50, end_date = 100, duration_days = 100,
            peak_ndvi = 6/10, peak_evi = 5/10, bloom_intensity = 55/100,
            confidence_score = 7/10, detection_method = ''threshold'' \<rparr>"

definition ex_b :: bloom where
  "ex_b = \<lparr> start_date = 105, peak_date = 150, end_date = 220, duration_days = 115,
            peak_ndvi = 8/10, peak_evi = 4/10, bloom_intensity = 6/10,
            confidence_score = 8/10, detection_method = ''peak'' \<rparr>"



subsection \<open>The merger with its contributing candidates recorded\<close>

text \<open>The same loop, where every accumulated event carries the list of the candidates merged
  into it, in sorted order: \<open>merge_step_g\<close> appends to the list exactly where \<open>merge_step\<close>
  merges, and starts a new list where it starts a new event. Projecting the events gives
  \<open>merge_bloom_events\<close> back (lemma \<open>merge_groups_fst\<close>).\<close>

definition merge_step_g ::
  "(bloom \<times> bloom list) list \<times> (bloom \<times> bloom list) \<Rightarrow> bloom \<Rightarrow>
   (bloom \<times> bloom list) list \<times> (bloom \<times> bloom list)" where
  "merge_step_g s b =
     (case s of (merged, (cur, grp)) \<Rightarrow>
        if start_date b - end_date cur \<le> 7 then (merged, (merge_into cur b, grp @ [b]))
        else (merged @ [(cur, grp)], (b, [b])))"

definition merge_scan_g :: "bloom list \<Rightarrow> (bloom \<times> bloom list) list" where
  "merge_scan_g sorted_blooms =
     (case sorted_blooms of
        [] \<Rightarrow> []
      | b0 # rest \<Rightarrow>
          (case foldl merge_step_g ([], (b0, [b0])) rest of (merged, cg) \<Rightarrow> merged @ [cg]))"

definition merge_groups :: "bloom list \<Rightarrow> (bloom \<times> bloom list) list" where
  "merge_groups bloom_events =
     filter (\<lambda>eg. min_bloom_duration \<le> duration_days (fst eg))
       (merge_scan_g (sort_key start_date bloom_events))"

definition peaks_are_maxima :: "bloom \<Rightarrow> bloom list \<Rightarrow> bool" where
  "peaks_are_maxima e g =
     (g \<noteq> [] \<and>
      peak_ndvi e = Max (peak_ndvi ` set g) \<and>
      peak_evi e = Max (peak_evi ` set g) \<and>
      bloom_intensity e = Max (bloom_intensity ` set g) \<and>
      confidence_score e = Max (confidence_score ` set g))"

definition keeps_first :: "bloom \<Rightarrow> bloom list \<Rightarrow> bool" where
  "keeps_first e g =
     (g \<noteq> [] \<and>
      start_date e = start_date (hd g) \<and>
      peak_date e = peak_date (hd g) \<and>
      detection_method e = detection_method (hd g))"

definition ex_c :: bloom where
  "ex_c = \<lparr> start_date = 300, peak_date = 310, end_date = 320, duration_days = 20,
            peak_ndvi = 5/10, peak_evi = 4/10, bloom_intensity = 45/100,
            confidence_score = 6/10, detection_method = ''change_point'' \<rparr>"

definition ex_d :: bloom where
  "ex_d = \<lparr> start_date = 400, peak_date = 402, end_date = 405, duration_days = 5,
            peak_ndvi = 5/10, peak_evi = 4/10, bloom_intensity = 45/100,
            confidence_score = 7/10, detection_method = ''threshold'' \<rparr>"

text \<open>The event that merging \<open>ex_b\<close> into \<open>ex_a\<close> gives.\<close>

definition ex_ab :: bloom where
  "ex_ab = \<lparr> start_date = 0, peak_date = 50, end_date = 220, duration_days = 220,
            peak_ndvi = 8/10, peak_evi = 5/10, bloom_intensity = 6/10,
            confidence_score = 8/10, detection_method = ''threshold'' \<rparr>"

section \<open>Data frames\<close>

text \<open>The exceptions the modelled code can raise; every service method catches them all and
  returns its fallback value.\<close>

datatype py_error = IndexError | ValueError | KeyError | AttributeError

text \<open>A row of a data frame without missing values, as the detectors and the extractors read
  it. \<open>label\<close> is the pandas index label of the row: the callers reset the index to
  \<open>0, 1, 2, ...\<close> before cleaning, and \<open>dropna\<close> keeps the labels of the rows that survive, so
  labels and positions differ once a row has been dropped.\<close>

record clean_row =
  label :: nat
  date :: date
  ndvi :: real
  evi :: real

record row = clean_row +
  ndvi_smooth :: real
  evi_smooth :: real

text \<open>\<open>df.iloc[i]\<close>: positional, negative positions count from the end, \<open>IndexError\<close> out
  of range. \<open>df.iloc[i:j]\<close> for non-negative bounds never raises.\<close>

definition iloc :: "'a list \<Rightarrow> int \<Rightarrow> py_error + 'a" where
  "iloc df i =
     (if 0 \<le> i \<and> i < int (length df) then Inr (df ! nat i)
      else if i < 0 \<and> - int (length df) \<le> i then Inr (df ! nat (int (length df) + i))
      else Inl IndexError)"

definition iloc_slice :: "'a list \<Rightarrow> nat \<Rightarrow> nat \<Rightarrow> 'a list" where
  "iloc_slice df i j = take (j - i) (drop i df)"

text \<open>\<open>np.argmax\<close>: the position of the first occurrence of the maximum.
  \<open>Series.idxmax()\<close>: the index label of the first row that holds the maximum;
  \<open>ValueError\<close> on an empty series.\<close>

definition argmax :: "real list \<Rightarrow> nat" where
  "argmax xs = length (takeWhile (\<lambda>v. v \<noteq> Max (set xs)) xs)"

definition idxmax :: "('r \<Rightarrow> real) \<Rightarrow> ('r \<Rightarrow> nat) \<Rightarrow> 'r list \<Rightarrow> py_error + nat" where
  "idxmax col lab rs =
     (if rs = [] then Inl ValueError else Inr (lab (rs ! argmax (map col rs))))"

section \<open>ThresholdDetector: \<open>_find_continuous_periods\<close> and \<open>_detect_threshold_blooms\<close>\<close>

text \<open>One iteration of \<open>for i, is_bloom in enumerate(mask)\<close>; the state is
  \<open>(periods, start_idx)\<close>.\<close>

definition period_step ::
  "(nat \<times> nat) list \<times> nat option \<Rightarrow> nat \<times> bool \<Rightarrow> (nat \<times> nat) list \<times> nat option" where
  "period_step s ib =
     (case s of (periods, start_idx) \<Rightarrow>
      case ib of (i, is_bloom) \<Rightarrow>
        (case start_idx of
           None \<Rightarrow> if is_bloom then (periods, Some i) else (periods, None)
         | Some st \<Rightarrow> if \<not> is_bloom then (periods @ [(st, i - 1)], None) else (periods, Some st)))"

definition find_continuous_periods :: "bool list \<Rightarrow> (nat \<times> nat) list" where
  "find_continuous_periods bmask =
     (case foldl period_step ([], None) (enumerate 0 bmask) of
        (periods, None) \<Rightarrow> periods
      | (periods, Some st) \<Rightarrow> periods @ [(st, length bmask - 1)])"

definition bloom_mask :: "row list \<Rightarrow> bool list" where
  "bloom_mask df =
     map (\<lambda>r. ndvi_smooth r > ndvi_bloom_threshold \<and> evi_smooth r > evi_bloom_threshold) df"

text \<open>The dictionary every detector builds from the rows at \<open>start_idx\<close>, \<open>peak_idx\<close> and
  \<open>end_idx\<close>.\<close>

definition make_bloom :: "row \<Rightarrow> row \<Rightarrow> row \<Rightarrow> real \<Rightarrow> string \<Rightarrow> bloom" where
  "make_bloom rs rp re conf meth =
     \<lparr> start_date = date rs, peak_date = date rp, end_date = date re,
       duration_days = date re - date rs,
       peak_ndvi = ndvi_smooth rp, peak_evi = evi_smooth rp,
       bloom_intensity = (ndvi_smooth rp + evi_smooth rp) / 2,
       confidence_score = conf, detection_method = meth \<rparr>"

text \<open>The body of the loop over the periods. The peak position is computed as
  \<open>start_idx + bloom_data['ndvi_smooth'].idxmax() - bloom_data.index[0]\<close>, a difference of
  index labels added to a position.\<close>

definition threshold_bloom :: "row list \<Rightarrow> nat \<Rightarrow> nat \<Rightarrow> py_error + bloom" where
  "threshold_bloom df start_idx end_idx =
     (let bloom_data = iloc_slice df start_idx (end_idx + 1) in
      case idxmax ndvi_smooth label bloom_data of
        Inl e \<Rightarrow> Inl e
      | Inr lmax \<Rightarrow>
          (let peak_idx = int start_idx + int lmax - int (label (hd bloom_data)) in
           case iloc df (int start_idx) of Inl e \<Rightarrow> Inl e | Inr rs \<Rightarrow>
           case iloc df peak_idx of Inl e \<Rightarrow> Inl e | Inr rp \<Rightarrow>
           case iloc df (int end_idx) of Inl e \<Rightarrow> Inl e | Inr re \<Rightarrow>
             Inr (make_bloom rs rp re (7 / 10) ''threshold'')))"

fun threshold_loop :: "row list \<Rightarrow> (nat \<times> nat) list \<Rightarrow> bloom list \<Rightarrow> py_error + bloom list" where
  "threshold_loop df [] blooms = Inr blooms"
| "threshold_loop df ((start_idx, end_idx) # ps) blooms =
     (if int end_idx - int start_idx \<ge> 2 then
        (case threshold_bloom df start_idx end_idx of
           Inl e \<Rightarrow> Inl e
         | Inr b \<Rightarrow> threshold_loop df ps (blooms @ [b]))
      else threshold_loop df ps blooms)"

text \<open>The body of the \<open>try\<close> block, and the method with its \<open>except\<close> branch.\<close>

definition threshold_blooms_try :: "row list \<Rightarrow> py_error + bloom list" where
  "threshold_blooms_try df = threshold_loop df (find_continuous_periods (bloom_mask df)) []"

definition detect_threshold_blooms :: "row list \<Rightarrow> bloom list" where
  "detect_threshold_blooms df =
     (case threshold_blooms_try df of Inl e \<Rightarrow> [] | Inr blooms \<Rightarrow> blooms)"

subsection \<open>Sample series\<close>

definition mk_row :: "nat \<Rightarrow> date \<Rightarrow> real \<Rightarrow> real \<Rightarrow> row" where
  "mk_row l d n e = \<lparr> label = l, date = d, ndvi = n, evi = e, ndvi_smooth = n, evi_smooth = e \<rparr>"

definition df_gap :: "row list" where
  "df_gap = [mk_row 0 0 (5/10) (5/10), mk_row 1 16 (58/100) (5/10), mk_row 2 32 (66/100) (5/10),
             mk_row 3 48 (74/100) (5/10), mk_row 5 80 (9/10) (5/10), mk_row 6 96 (6/10) (5/10)]"

section \<open>SeriesPreprocessor: \<open>_clean_time_series\<close> and \<open>_smooth_time_series\<close>\<close>

text \<open>A row of the data frame as the preprocessor handles it: a value that is missing
  (\<open>None\<close> or NaN) is \<open>None\<close>. \<open>raw_label\<close> is the pandas index label of the row.\<close>

record raw_row =
  raw_label :: nat
  raw_date :: date
  raw_ndvi :: "real option"
  raw_evi :: "real option"

text \<open>The assignment of the two value columns of a frame, \<open>df['ndvi'] = ...\<close> and
  \<open>df['evi'] = ...\<close>.\<close>

definition set_columns :: "raw_row list \<Rightarrow> real option list \<Rightarrow> real option list \<Rightarrow> raw_row list" where
  "set_columns df ns es =
     map (\<lambda>(r, n, e). r\<lparr> raw_ndvi := n, raw_evi := e \<rparr>) (zip df (zip ns es))"

text \<open>\<open>df.loc[df[col] < -1, col] = np.nan; df.loc[df[col] > 1, col] = np.nan\<close>. A comparison
  with a missing value is false.\<close>

definition mask_outliers :: "real option \<Rightarrow> real option" where
  "mask_outliers v =
     (case v of None \<Rightarrow> None | Some x \<Rightarrow> if x < - 1 \<or> x > 1 then None else Some x)"

text \<open>\<open>Series.interpolate(method='linear', limit=3)\<close> of pandas (forward direction, positions
  equally spaced): leading NaNs stay; in a gap after a valid value \<open>a\<close> the first \<open>limit\<close>
  NaNs are filled, with the value on the line from \<open>a\<close> to the next valid value \<open>b\<close>, or with
  \<open>a\<close> when no valid value follows; the other NaNs of the gap stay.
  \<open>next_valid xs\<close> is the distance to and the value of the next valid entry.\<close>

fun next_valid :: "real option list \<Rightarrow> (nat \<times> real) option" where
  "next_valid [] = None"
| "next_valid (Some b # xs) = Some (1, b)"
| "next_valid (None # xs) = (case next_valid xs of None \<Rightarrow> None | Some (d, b) \<Rightarrow> Some (Suc d, b))"

fun interp_go :: "nat \<Rightarrow> real \<Rightarrow> nat \<Rightarrow> real option list \<Rightarrow> real option list" where
  "interp_go lmt a j [] = []"
| "interp_go lmt a j (Some b # xs) = Some b # interp_go lmt b 0 xs"
| "interp_go lmt a j (None # xs) =
     (if Suc j \<le> lmt then
        Some (case next_valid xs of
                None \<Rightarrow> a
              | Some (d, b) \<Rightarrow> a + (b - a) * real (Suc j) / real (Suc j + d))
      else None) # interp_go lmt a (Suc j) xs"

fun interpolate :: "nat \<Rightarrow> real option list \<Rightarrow> real option list" where
  "interpolate lmt [] = []"
| "interpolate lmt (None # xs) = None # interpolate lmt xs"
| "interpolate lmt (Some a # xs) = Some a # interp_go lmt a 0 xs"

text \<open>Whether \<open>Series.interpolate\<close> raises on a column is a parameter of the cleaning: it
  depends on the pandas version and on the dtype of the column, which the rows do not hold.
  A column that holds only \<open>None\<close> gets dtype \<open>object\<close> from \<open>pd.DataFrame\<close>; newer pandas
  versions raise on such a column, older ones do not. On a float column (one with a number in
  it, or with NaN for the missing values) \<open>interpolate\<close> does not raise. The two
  behaviours:\<close>

definition never_raises :: "real option list \<Rightarrow> bool" where
  "never_raises col = False"

definition object_column_raises :: "real option list \<Rightarrow> bool" where
  "object_column_raises col = (col \<noteq> [] \<and> list_all (\<lambda>v. v = None) col)"

text \<open>\<open>df.dropna(subset=['ndvi', 'evi'])\<close>: the rows with both values present, labels kept.\<close>

definition notna :: "real option \<Rightarrow> bool" where
  "notna v = (case v of None \<Rightarrow> False | Some x \<Rightarrow> True)"

definition dropna :: "raw_row list \<Rightarrow> raw_row list" where
  "dropna df = filter (\<lambda>r. notna (raw_ndvi r) \<and> notna (raw_evi r)) df"

text \<open>\<open>_clean_time_series\<close>, statement by statement. The outliers of both columns are masked
  in place; then the NDVI column is interpolated and assigned, then the EVI column; then the
  rows with a missing value are dropped. When \<open>interpolate\<close> raises, the \<open>except\<close> branch
  returns the frame as the statements before have left it: no row is dropped.\<close>

definition clean_time_series :: "(real option list \<Rightarrow> bool) \<Rightarrow> raw_row list \<Rightarrow> raw_row list" where
  "clean_time_series interpolate_raises df =
     (let masked = set_columns df (map (mask_outliers \<circ> raw_ndvi) df)
                     (map (mask_outliers \<circ> raw_evi) df)
      in if interpolate_raises (map raw_ndvi masked) then masked
         else
           let df1 = set_columns masked (interpolate 3 (map raw_ndvi masked)) (map raw_evi masked)
           in if interpolate_raises (map raw_evi df1) then df1
              else dropna (set_columns df1 (map raw_ndvi df1) (interpolate 3 (map raw_evi df1))))"

text \<open>\<open>window_length = min(11, len(df) // 3)\<close>, made odd by adding one.\<close>

definition window_length :: "nat \<Rightarrow> nat" where
  "window_length n = (let w = min 11 (n div 3) in if w mod 2 = 0 then w + 1 else w)"

text \<open>A row with the two smoothed columns.\<close>

record smoothed_row = raw_row +
  raw_ndvi_smooth :: "real option"
  raw_evi_smooth :: "real option"

definition with_smooth :: "raw_row list \<Rightarrow> real option list \<Rightarrow> real option list \<Rightarrow> smoothed_row list" where
  "with_smooth df ns es =
     map (\<lambda>(r, n, e). \<lparr> raw_label = raw_label r, raw_date = raw_date r, raw_ndvi = raw_ndvi r,
                         raw_evi = raw_evi r, raw_ndvi_smooth = n, raw_evi_smooth = e \<rparr>)
       (zip df (zip ns es))"

text \<open>\<open>_smooth_time_series\<close>. \<open>scipy.signal.savgol_filter\<close> is a parameter. It is called when
  the window is at least 5; when it raises, or returns a column of another length (the
  assignment then raises), the \<open>except\<close> branch sets the smoothed columns to the raw ones.\<close>

definition smooth_time_series ::
  "(real option list \<Rightarrow> nat \<Rightarrow> nat \<Rightarrow> py_error + real option list) \<Rightarrow> raw_row list \<Rightarrow>
   smoothed_row list" where
  "smooth_time_series savgol_filter df =
     (let unsmoothed = with_smooth df (map raw_ndvi df) (map raw_evi df);
          w = window_length (length df)
      in if w \<ge> 5 then
           (case savgol_filter (map raw_ndvi df) w 3 of
              Inl e \<Rightarrow> unsmoothed
            | Inr ns \<Rightarrow>
                if length ns \<noteq> length df then unsmoothed
                else (case savgol_filter (map raw_evi df) w 3 of
                        Inl e \<Rightarrow> unsmoothed
                      | Inr es \<Rightarrow>
                          if length es \<noteq> length df then unsmoothed
                          else with_smooth df ns es))
         else unsmoothed)"

text \<open>The detectors are modelled on frames without missing values (\<open>row\<close>). \<open>rows_of\<close> reads
  such a frame from the preprocessor's output; it is \<open>None\<close> when a value is missing.\<close>

definition complete_row :: "smoothed_row \<Rightarrow> bool" where
  "complete_row r =
     (notna (raw_ndvi r) \<and> notna (raw_evi r) \<and> notna (raw_ndvi_smooth r) \<and> notna (raw_evi_smooth r))"

definition row_of :: "smoothed_row \<Rightarrow> row" where
  "row_of r =
     \<lparr> label = raw_label r, date = raw_date r, ndvi = the (raw_ndvi r), evi = the (raw_evi r),
       ndvi_smooth = the (raw_ndvi_smooth r), evi_smooth = the (raw_evi_smooth r) \<rparr>"

definition rows_of :: "smoothed_row list \<Rightarrow> row list option" where
  "rows_of df = (if list_all complete_row df then Some (map row_of df) else None)"

text \<open>The callers' \<open>pd.DataFrame(time_series)\<close> followed by \<open>reset_index(drop=True)\<close>: the
  labels are the positions.\<close>

definition reset_index :: "(date \<times> real option \<times> real option) list \<Rightarrow> raw_row list" where
  "reset_index obs =
     map (\<lambda>(i, d, n, e). \<lparr> raw_label = i, raw_date = d, raw_ndvi = n, raw_evi = e \<rparr>)
       (enumerate 0 obs)"

text \<open>A value that is missing or lies in \<open>[-1, 1]\<close>.\<close>

definition in_range :: "real option \<Rightarrow> bool" where
  "in_range v = (case v of None \<Rightarrow> True | Some x \<Rightarrow> - 1 \<le> x \<and> x \<le> 1)"

text \<open>A filter that always raises, for inputs too short for the filter to be called.\<close>

definition no_savgol :: "real option list \<Rightarrow> nat \<Rightarrow> nat \<Rightarrow> py_error + real option list" where
  "no_savgol xs w p = Inl ValueError"

text \<open>Seven observations 16 days apart, four consecutive NDVI values missing.\<close>

definition raw_gap :: "(date \<times> real option \<times> real option) list" where
  "raw_gap = [(0, Some (5/10), Some (5/10)), (16, None, Some (5/10)), (32, None, Some (5/10)),
              (48, None, Some (5/10)), (64, None, Some (5/10)), (80, Some (9/10), Some (5/10)),
              (96, Some (6/10), Some (5/10))]"

text \<open>Two observations on the same day.\<close>

definition raw_dup :: "(date \<times> real option \<times> real option) list" where
  "raw_dup = [(5, Some (5/10), Some (4/10)), (5, Some (6/10), Some (4/10))]"

text \<open>Three observations without any NDVI value.\<close>

definition raw_no_ndvi :: "(date \<times> real option \<times> real option) list" where
  "raw_no_ndvi = [(0, None, Some (5/10)), (16, None, Some (4/10)), (32, None, Some (3/10))]"

text \<open>The cleaned frame of \<open>raw_gap\<close>: three values interpolated, the row with label 4 dropped.\<close>

definition clean_gap_frame :: "raw_row list" where
  "clean_gap_frame =
  [\<lparr> raw_label = 0, raw_date = 0, raw_ndvi = Some (5/10), raw_evi = Some (5/10) \<rparr>,
   \<lparr> raw_label = 1, raw_date = 16, raw_ndvi = Some (58/100), raw_evi = Some (5/10) \<rparr>,
   \<lparr> raw_label = 2, raw_date = 32, raw_ndvi = Some (66/100), raw_evi = Some (5/10) \<rparr>,
   \<lparr> raw_label = 3, raw_date = 48, raw_ndvi = Some (74/100), raw_evi = Some (5/10) \<rparr>,
   \<lparr> raw_label = 5, raw_date = 80, raw_ndvi = Some (9/10), raw_evi = Some (5/10) \<rparr>,
   \<lparr> raw_label = 6, raw_date = 96, raw_ndvi = Some (6/10), raw_evi = Some (5/10) \<rparr>]"

section \<open>PeakDetector: \<open>_detect_peak_blooms\<close>\<close>

text \<open>\<open>scipy.signal.find_peaks\<close> first collects the local maxima: a position \<open>i\<close> with a
  strictly smaller left neighbour starts a plateau; when the plateau ends before the last
  sample and the sample after it is strictly smaller, the middle of the plateau is a local
  maximum. A plateau that touches either end of the signal is none.\<close>

definition local_maxima_1d :: "real list \<Rightarrow> nat list" where
  "local_maxima_1d x =
     concat (map (\<lambda>i.
        let j = i + length (takeWhile (\<lambda>v. v = x ! i) (drop (Suc i) x))
        in if x ! (i - 1) < x ! i \<and> Suc j < length x \<and> x ! Suc j < x ! i
           then [(i + j) div 2] else [])
       [1..<length x])"

text \<open>The conditions \<open>height\<close>, \<open>distance\<close> and \<open>prominence\<close> of \<open>find_peaks\<close> only remove
  local maxima; which ones they keep is the parameter \<open>conditions\<close>.\<close>

definition find_peaks :: "(real list \<Rightarrow> nat \<Rightarrow> bool) \<Rightarrow> real list \<Rightarrow> nat list" where
  "find_peaks conditions x = filter (conditions x) (local_maxima_1d x)"

text \<open>The loops of \<open>_find_bloom_start\<close> and \<open>_find_bloom_end\<close>: the first position of the
  range whose smoothed NDVI is below the threshold decides; \<open>adj\<close> is \<open>i + 1\<close> or \<open>i - 1\<close>.\<close>

fun scan_below :: "row list \<Rightarrow> real \<Rightarrow> nat list \<Rightarrow> (nat \<Rightarrow> nat) \<Rightarrow> nat \<Rightarrow> py_error + nat" where
  "scan_below df threshold [] adj initial = Inr initial"
| "scan_below df threshold (i # is) adj initial =
     (case iloc df (int i) of
        Inl e \<Rightarrow> Inl e
      | Inr r \<Rightarrow> if ndvi_smooth r < threshold then Inr (adj i)
                else scan_below df threshold is adj initial)"

definition find_bloom_start :: "row list \<Rightarrow> nat \<Rightarrow> nat \<Rightarrow> py_error + nat" where
  "find_bloom_start df peak_idx initial_start =
     (case iloc df (int peak_idx) of
        Inl e \<Rightarrow> Inl e
      | Inr rp \<Rightarrow> scan_below df (ndvi_smooth rp * (5 / 10)) (rev [initial_start..<peak_idx])
                   Suc initial_start)"

definition find_bloom_end :: "row list \<Rightarrow> nat \<Rightarrow> nat \<Rightarrow> py_error + nat" where
  "find_bloom_end df peak_idx initial_end =
     (case iloc df (int peak_idx) of
        Inl e \<Rightarrow> Inl e
      | Inr rp \<Rightarrow> scan_below df (ndvi_smooth rp * (5 / 10)) [Suc peak_idx..<Suc initial_end]
                   (\<lambda>i. i - 1) initial_end)"

text \<open>The body of the loop over the peaks. The loop runs only on a series with a local
  maximum, which has three rows at least, so \<open>len(df) - 1\<close> is not negative.\<close>

definition peak_bloom :: "row list \<Rightarrow> nat \<Rightarrow> py_error + bloom option" where
  "peak_bloom df peak_idx =
     (case find_bloom_start df peak_idx (peak_idx - 5) of Inl e \<Rightarrow> Inl e | Inr start_idx \<Rightarrow>
      case find_bloom_end df peak_idx (min (length df - 1) (peak_idx + 5)) of
        Inl e \<Rightarrow> Inl e | Inr end_idx \<Rightarrow>
      case iloc df (int end_idx) of Inl e \<Rightarrow> Inl e | Inr re \<Rightarrow>
      case iloc df (int start_idx) of Inl e \<Rightarrow> Inl e | Inr rs \<Rightarrow>
        if min_bloom_duration \<le> date re - date rs \<and> date re - date rs \<le> max_bloom_duration
        then (case iloc df (int peak_idx) of
                Inl e \<Rightarrow> Inl e
              | Inr rp \<Rightarrow> Inr (Some (make_bloom rs rp re (8 / 10) ''peak'')))
        else Inr None)"

fun peak_loop :: "row list \<Rightarrow> nat list \<Rightarrow> bloom list \<Rightarrow> py_error + bloom list" where
  "peak_loop df [] blooms = Inr blooms"
| "peak_loop df (peak_idx # ps) blooms =
     (case peak_bloom df peak_idx of
        Inl e \<Rightarrow> Inl e
      | Inr None \<Rightarrow> peak_loop df ps blooms
      | Inr (Some b) \<Rightarrow> peak_loop df ps (blooms @ [b]))"

definition peak_blooms_try :: "(real list \<Rightarrow> nat \<Rightarrow> bool) \<Rightarrow> row list \<Rightarrow> py_error + bloom list" where
  "peak_blooms_try conditions df =
     peak_loop df (find_peaks conditions (map ndvi_smooth df)) []"

definition detect_peak_blooms :: "(real list \<Rightarrow> nat \<Rightarrow> bool) \<Rightarrow> row list \<Rightarrow> bloom list" where
  "detect_peak_blooms conditions df =
     (case peak_blooms_try conditions df of Inl e \<Rightarrow> [] | Inr blooms \<Rightarrow> blooms)"

section \<open>ChangePointDetector: \<open>_detect_change_point_blooms\<close>\<close>

text \<open>\<open>Series.diff()\<close>: the first entry is NaN.\<close>

definition diff :: "real list \<Rightarrow> real option list" where
  "diff xs = (case xs of [] \<Rightarrow> [] | x # rest \<Rightarrow> None # map (\<lambda>(a, b). Some (b - a)) (zip xs rest))"

text \<open>\<open>Series.std()\<close> of pandas: the sample standard deviation (\<open>ddof=1\<close>) of the values that
  are not NaN; NaN with fewer than two of them.\<close>

definition present :: "real option list \<Rightarrow> real list" where
  "present vs = concat (map (\<lambda>v. case v of None \<Rightarrow> [] | Some x \<Rightarrow> [x]) vs)"

definition mean :: "real list \<Rightarrow> real" where
  "mean xs = sum_list xs / real (length xs)"

definition pd_std :: "real option list \<Rightarrow> real option" where
  "pd_std vs =
     (let xs = present vs in
      if length xs < 2 then None
      else Some (sqrt (sum_list (map (\<lambda>x. (x - mean xs)\<^sup>2) xs) / real (length xs - 1))))"

text \<open>Comparisons of floats where NaN may stand on either side: false with a NaN.\<close>

definition nan_gt :: "real option \<Rightarrow> real option \<Rightarrow> bool" where
  "nan_gt a b = (case (a, b) of (Some x, Some y) \<Rightarrow> x > y | _ \<Rightarrow> False)"

definition nan_lt :: "real option \<Rightarrow> real option \<Rightarrow> bool" where
  "nan_lt a b = (case (a, b) of (Some x, Some y) \<Rightarrow> x < y | _ \<Rightarrow> False)"

text \<open>\<open>df[df['ndvi_diff'] > threshold].index.tolist()\<close>: the index labels of the rows.\<close>

definition increase_points :: "row list \<Rightarrow> nat list" where
  "increase_points df =
     (let ndvi_diff = diff (map ndvi_smooth df);
          ndvi_increase_threshold = map_option (\<lambda>s. s * (15 / 10)) (pd_std ndvi_diff)
      in map (label \<circ> fst) (filter (\<lambda>(r, d). nan_gt d ndvi_increase_threshold) (zip df ndvi_diff)))"

definition decrease_points :: "row list \<Rightarrow> nat list" where
  "decrease_points df =
     (let ndvi_diff = diff (map ndvi_smooth df);
          ndvi_decrease_threshold = map_option (\<lambda>s. - s * (15 / 10)) (pd_std ndvi_diff)
      in map (label \<circ> fst) (filter (\<lambda>(r, d). nan_lt d ndvi_decrease_threshold) (zip df ndvi_diff)))"

text \<open>The body of \<open>if end_candidates:\<close>. The labels collected above are used as positions.\<close>

definition change_point_bloom :: "row list \<Rightarrow> nat \<Rightarrow> nat \<Rightarrow> py_error + bloom option" where
  "change_point_bloom df start_idx end_idx =
     (let bloom_data = iloc_slice df start_idx (end_idx + 1) in
      case idxmax ndvi_smooth label bloom_data of Inl e \<Rightarrow> Inl e | Inr lmax \<Rightarrow>
        (let peak_idx = int start_idx + int lmax - int (label (hd bloom_data)) in
         case iloc df (int end_idx) of Inl e \<Rightarrow> Inl e | Inr re \<Rightarrow>
         case iloc df (int start_idx) of Inl e \<Rightarrow> Inl e | Inr rs \<Rightarrow>
           if min_bloom_duration \<le> date re - date rs \<and> date re - date rs \<le> max_bloom_duration
           then (case iloc df peak_idx of
                   Inl e \<Rightarrow> Inl e
                 | Inr rp \<Rightarrow>
                     if ndvi_smooth rp > ndvi_bloom_threshold
                     then Inr (Some (make_bloom rs rp re (6 / 10) ''change_point''))
                     else Inr None)
           else Inr None))"

fun change_point_loop ::
  "row list \<Rightarrow> nat list \<Rightarrow> nat list \<Rightarrow> bloom list \<Rightarrow> py_error + bloom list" where
  "change_point_loop df decs [] blooms = Inr blooms"
| "change_point_loop df decs (start_idx # ss) blooms =
     (let end_candidates = filter (\<lambda>idx. idx > start_idx) decs in
      if end_candidates \<noteq> [] then
        (case change_point_bloom df start_idx (Min (set end_candidates)) of
           Inl e \<Rightarrow> Inl e
         | Inr None \<Rightarrow> change_point_loop df decs ss blooms
         | Inr (Some b) \<Rightarrow> change_point_loop df decs ss (blooms @ [b]))
      else change_point_loop df decs ss blooms)"

definition change_point_blooms_try :: "row list \<Rightarrow> py_error + bloom list" where
  "change_point_blooms_try df =
     change_point_loop df (decrease_points df) (increase_points df) []"

definition detect_change_point_blooms :: "row list \<Rightarrow> bloom list" where
  "detect_change_point_blooms df =
     (case change_point_blooms_try df of Inl e \<Rightarrow> [] | Inr blooms \<Rightarrow> blooms)"

definition const_df :: "nat \<Rightarrow> real \<Rightarrow> real \<Rightarrow> row list" where
  "const_df n c e = map (\<lambda>i. mk_row i (16 * int i) c e) [0..<n]"

definition bump_df :: "row list" where
  "bump_df = [mk_row 0 0 (2/10) (2/10), mk_row 1 16 (3/10) (2/10), mk_row 2 32 (7/10) (5/10),
     mk_row 3 48 (8/10) (5/10), mk_row 4 64 (75/100) (5/10), mk_row 5 80 (3/10) (2/10), mk_row 6 96 (2/10) (2/10)]"

section \<open>QualityScorer: \<open>_assess_data_quality\<close> and \<open>_get_quality_rating\<close>\<close>

definition max_gap_days_config :: int where
  "max_gap_days_config = 32"

record quality_metrics =
  data_completeness :: real
  temporal_completeness :: real
  valid_observations :: nat
  total_observations :: nat
  max_gap_days :: int
  mean_gap_days :: real
  large_gap_count :: nat
  overall_quality_score :: real
  quality_rating :: string

definition get_quality_rating :: "real \<Rightarrow> string" where
  "get_quality_rating quality_score =
     (if quality_score \<ge> 8 / 10 then ''excellent''
      else if quality_score \<ge> 6 / 10 then ''good''
      else if quality_score \<ge> 4 / 10 then ''fair''
      else ''poor'')"

text \<open>The temporal coverage: the expected number of observations is one per 16 days of the
  date range.\<close>

definition temporal_coverage :: "row list \<Rightarrow> real" where
  "temporal_coverage df =
     (if length df > 1 then
        (let date_range = Max (set (map date df)) - Min (set (map date df));
             expected_obs = real_of_int date_range / 16
         in if expected_obs > 0 then min 1 (real (length df) / expected_obs) else 0)
      else 0)"

text \<open>\<open>df['date'].diff().dt.days.dropna()\<close>: the differences of consecutive dates.\<close>

definition date_diffs :: "row list \<Rightarrow> int list" where
  "date_diffs df = map (\<lambda>(a, b). date b - date a) (zip df (tl df))"

definition gap_count :: "row list \<Rightarrow> nat" where
  "gap_count df =
     (if length df > 1 then length (filter (\<lambda>g. g > max_gap_days_config) (date_diffs df)) else 0)"

text \<open>The four quality factors. In the last one \<open>min(1.0, nan)\<close> is \<open>1.0\<close>, which is what
  Python's \<open>min\<close> returns when the standard deviation is NaN (fewer than two rows).\<close>

definition quality_factors :: "row list \<Rightarrow> real list" where
  "quality_factors df =
     [min 1 (real (length df) / 20),
      temporal_coverage df,
      (if length df > 0 then max 0 (1 - real (gap_count df) / real (length df)) else 0),
      (case pd_std (map (Some \<circ> ndvi_smooth) df) of
         None \<Rightarrow> 1
       | Some s \<Rightarrow> min 1 (s / (2 / 10)))]"

definition assess_data_quality :: "row list \<Rightarrow> nat \<Rightarrow> quality_metrics" where
  "assess_data_quality df total_possible_obs =
     (let valid_obs = length df;
          overall_quality = mean (quality_factors df)
      in \<lparr> data_completeness =
             (if total_possible_obs > 0 then real valid_obs / real total_possible_obs else 0),
           temporal_completeness = temporal_coverage df,
           valid_observations = valid_obs,
           total_observations = total_possible_obs,
           max_gap_days = (if length df > 1 then Max (set (date_diffs df)) else 0),
           mean_gap_days =
             (if length df > 1
              then real_of_int (sum_list (date_diffs df)) / real (length (date_diffs df)) else 0),
           large_gap_count = gap_count df,
           overall_quality_score = overall_quality,
           quality_rating = get_quality_rating overall_quality \<rparr>)"

section \<open>PhenologyExtractor: \<open>_calculate_basic_statistics\<close> and \<open>_detect_phenology_phases\<close>\<close>

definition sos_threshold :: real where
  "sos_threshold = 2 / 10"

definition eos_threshold :: real where
  "eos_threshold = 2 / 10"

text \<open>The two entries of \<open>basic_stats['ndvi']\<close> that the phase detection reads: \<open>min\<close> and
  \<open>amplitude\<close>. \<open>np.min\<close> of an empty array raises, and the method then returns \<open>{}\<close>.\<close>

definition calculate_basic_statistics :: "row list \<Rightarrow> (real \<times> real) option" where
  "calculate_basic_statistics df =
     (if df = [] then None
      else Some (Min (set (map ndvi_smooth df)),
                 Max (set (map ndvi_smooth df)) - Min (set (map ndvi_smooth df))))"

text \<open>What the method calls on the elements of \<open>dates = df['date'].values\<close> and on their
  differences: \<open>d.strftime('%Y-%m-%d')\<close>, \<open>d.timetuple().tm_yday\<close> and \<open>(a - b).days\<close>.
  Whether these exist depends on the element type of the array, so they are parameters.\<close>

record 'a date_ops =
  strftime :: "date \<Rightarrow> py_error + 'a"
  tm_yday :: "date \<Rightarrow> py_error + int"
  days :: "date \<Rightarrow> date \<Rightarrow> py_error + int"

text \<open>The column \<open>df['date']\<close> has dtype \<open>datetime64[ns]\<close> (the caller converts it with
  \<open>pd.to_datetime\<close>), so \<open>.values\<close> is a numpy array whose elements are \<open>numpy.datetime64\<close>
  scalars and whose differences are \<open>numpy.timedelta64\<close> scalars. These have no attribute
  \<open>strftime\<close>, \<open>timetuple\<close> or \<open>days\<close>: every such call raises \<open>AttributeError\<close>.\<close>

definition datetime64_ops :: "string date_ops" where
  "datetime64_ops =
     \<lparr> strftime = (\<lambda>d. Inl AttributeError),
       tm_yday = (\<lambda>d. Inl AttributeError),
       days = (\<lambda>a b. Inl AttributeError) \<rparr>"

text \<open>The operations of Python \<open>datetime\<close> objects, which the method is written for. The
  printed date is identified with the day it prints (the ISO format keeps the order); the
  day of the year is a parameter.\<close>

definition datetime_ops :: "(date \<Rightarrow> int) \<Rightarrow> date date_ops" where
  "datetime_ops yday =
     \<lparr> strftime = (\<lambda>d. Inr d),
       tm_yday = (\<lambda>d. Inr (yday d)),
       days = (\<lambda>a b. Inr (a - b)) \<rparr>"

record 'a phase =
  phase_date :: 'a
  day_of_year :: int
  ndvi_value :: real

record 'a phenology_phases =
  start_of_season :: "'a phase option"
  peak_of_season :: "'a phase"
  end_of_season :: "'a phase option"
  growing_season_length :: "int option"
  green_up_duration :: "int option"
  senescence_duration :: "int option"

text \<open>The first position of a list whose element satisfies \<open>P\<close>: the loops
  \<open>for i, v in enumerate(xs): if P(v): idx = i; break\<close>.\<close>

definition first_index :: "('a \<Rightarrow> bool) \<Rightarrow> 'a list \<Rightarrow> nat option" where
  "first_index P xs =
     (if list_ex P xs then Some (length (takeWhile (\<lambda>x. \<not> P x) xs)) else None)"

definition find_sos_idx :: "real list \<Rightarrow> real \<Rightarrow> nat option" where
  "find_sos_idx ndvi_values sos_value = first_index (\<lambda>v. v \<ge> sos_value) ndvi_values"

text \<open>The end of season: the first position from the peak on with a value below the
  threshold, the last position when there is none.\<close>

definition find_eos_idx :: "real list \<Rightarrow> nat \<Rightarrow> real \<Rightarrow> nat" where
  "find_eos_idx ndvi_values pos_idx eos_value =
     (case first_index (\<lambda>v. v < eos_value) (drop pos_idx ndvi_values) of
        Some k \<Rightarrow> pos_idx + k
      | None \<Rightarrow> length ndvi_values - 1)"

definition phase_entry :: "'a date_ops \<Rightarrow> row list \<Rightarrow> nat \<Rightarrow> py_error + 'a phase" where
  "phase_entry ops df i =
     (case strftime ops (date (df ! i)) of Inl e \<Rightarrow> Inl e | Inr s \<Rightarrow>
      case tm_yday ops (date (df ! i)) of Inl e \<Rightarrow> Inl e | Inr y \<Rightarrow>
        Inr \<lparr> phase_date = s, day_of_year = y, ndvi_value = ndvi_smooth (df ! i) \<rparr>)"

text \<open>The body of the \<open>try\<close> block. The positions read are in range: \<open>sos_idx\<close> and
  \<open>pos_idx\<close> are positions of elements, \<open>eos_idx\<close> is one or the last position of a
  series that is not empty.\<close>

definition phenology_phases_try ::
  "'a date_ops \<Rightarrow> row list \<Rightarrow> (real \<times> real) option \<Rightarrow> py_error + 'a phenology_phases" where
  "phenology_phases_try ops df basic_stats =
     (case basic_stats of None \<Rightarrow> Inl KeyError | Some (baseline, amplitude) \<Rightarrow>
      let ndvi_values = map ndvi_smooth df;
          sos_value = baseline + amplitude * sos_threshold;
          eos_value = baseline + amplitude * eos_threshold;
          sos_idx = find_sos_idx ndvi_values sos_value
      in if ndvi_values = [] then Inl ValueError
         else
           let pos_idx = argmax ndvi_values;
               eos_idx = find_eos_idx ndvi_values pos_idx eos_value
           in
           case (case sos_idx of None \<Rightarrow> Inr None
                 | Some i \<Rightarrow> map_sum id Some (phase_entry ops df i)) of
             Inl e \<Rightarrow> Inl e | Inr sos \<Rightarrow>
           case phase_entry ops df pos_idx of Inl e \<Rightarrow> Inl e | Inr pos \<Rightarrow>
           case phase_entry ops df eos_idx of Inl e \<Rightarrow> Inl e | Inr eos \<Rightarrow>
           case (case sos_idx of None \<Rightarrow> Inr None
                 | Some i \<Rightarrow> map_sum id Some (days ops (date (df ! eos_idx)) (date (df ! i)))) of
             Inl e \<Rightarrow> Inl e | Inr growing \<Rightarrow>
           case (case sos_idx of None \<Rightarrow> Inr None
                 | Some i \<Rightarrow> map_sum id Some (days ops (date (df ! pos_idx)) (date (df ! i)))) of
             Inl e \<Rightarrow> Inl e | Inr green_up \<Rightarrow>
           case days ops (date (df ! eos_idx)) (date (df ! pos_idx)) of
             Inl e \<Rightarrow> Inl e | Inr senescence \<Rightarrow>
             Inr \<lparr> start_of_season = sos, peak_of_season = pos, end_of_season = Some eos,
                   growing_season_length = growing, green_up_duration = green_up,
                   senescence_duration = Some senescence \<rparr>)"

text \<open>The method: \<open>{}\<close> (here \<open>None\<close>) when the body raises.\<close>

definition detect_phenology_phases ::
  "'a date_ops \<Rightarrow> row list \<Rightarrow> (real \<times> real) option \<Rightarrow> 'a phenology_phases option" where
  "detect_phenology_phases ops df basic_stats =
     (case phenology_phases_try ops df basic_stats of Inl e \<Rightarrow> None | Inr phases \<Rightarrow> Some phases)"

text \<open>Seven samples 16 days apart with one seasonal peak.\<close>

definition season_df :: "row list" where
  "season_df = [mk_row 0 0 (2/10) (2/10), mk_row 1 16 (3/10) (2/10), mk_row 2 32 (7/10) (5/10),
     mk_row 3 48 (8/10) (5/10), mk_row 4 64 (75/100) (5/10), mk_row 5 80 (3/10) (2/10),
     mk_row 6 96 (2/10) (2/10)]"

section \<open>Maximal runs of the threshold mask\<close>

text \<open>A maximal run of a mask: positions \<open>s\<close> to \<open>e\<close> hold, the positions before and after
  do not (or do not exist).\<close>

definition is_run :: "bool list \<Rightarrow> nat \<Rightarrow> nat \<Rightarrow> bool" where
  "is_run m s e =
     (s \<le> e \<and> e < length m \<and> (\<forall>i. s \<le> i \<and> i \<le> e \<longrightarrow> m ! i) \<and>
      (s = 0 \<or> \<not> m ! (s - 1)) \<and> (Suc e = length m \<or> \<not> m ! Suc e))"

text \<open>The invariant of the loop of \<open>_find_continuous_periods\<close> after \<open>k\<close> elements.\<close>

definition periods_inv :: "bool list \<Rightarrow> nat \<Rightarrow> (nat \<times> nat) list \<times> nat option \<Rightarrow> bool" where
  "periods_inv m k s =
     (case s of (periods, start_idx) \<Rightarrow>
        (\<forall>p \<in> set periods. is_run m (fst p) (snd p)) \<and>
        (case start_idx of
           None \<Rightarrow> k = 0 \<or> \<not> m ! (k - 1)
         | Some st \<Rightarrow> st < k \<and> (\<forall>i. st \<le> i \<and> i < k \<longrightarrow> m ! i) \<and> (st = 0 \<or> \<not> m ! (st - 1))))"

text \<open>The candidate that the claim describes for the run from \<open>s\<close> to \<open>e\<close>: the peak is the
  first position of the maximal smoothed NDVI within the run.\<close>

definition run_bloom :: "row list \<Rightarrow> nat \<Rightarrow> nat \<Rightarrow> bloom" where
  "run_bloom df s e =
     (let p = s + argmax (map ndvi_smooth (iloc_slice df s (e + 1)))
      in make_bloom (df ! s) (df ! p) (df ! e) (7 / 10) ''threshold'')"

section \<open>Properties of the merger\<close>

text \<open>C1 (as amended): every event returned by \<open>_merge_bloom_events\<close> has a duration of at
  least \<open>min_bloom_duration\<close> (14) days. The merger applies no upper bound.\<close>

theorem merge_min_duration:
  "\<forall>e \<in> set (merge_bloom_events evs). min_bloom_duration \<le> duration_days e"
  by (simp add: merge_bloom_events_def)

lemma merge_step_pair:
  "merge_step (merged, cur) b =
     (if start_date b - end_date cur \<le> 7 then (merged, merge_into cur b)
      else (merged @ [cur], b))"
  by (simp add: merge_step_def)

lemma merge_into_start [simp]: "start_date (merge_into cur b) = start_date cur"
  by (simp add: merge_into_def)

lemma merge_into_end [simp]: "end_date (merge_into cur b) = max (end_date cur) (end_date b)"
  by (simp add: merge_into_def)

lemma foldl_merge_step_gap:
  assumes "sorted (map start_date (cur # rest))"
    and "sorted_wrt gap_before merged"
    and "\<forall>m \<in> set merged. gap_before m cur"
    and "foldl merge_step (merged, cur) rest = (merged', cur')"
  shows "sorted_wrt gap_before (merged' @ [cur'])"
  using assms
proof (induction rest arbitrary: merged cur)
  case Nil
  then show ?case by (auto simp: sorted_wrt_append)
next
  case (Cons b rest)
  show ?case
  proof (cases "start_date b - end_date cur \<le> 7")
    case True
    have s: "sorted (map start_date (merge_into cur b # rest))"
      using Cons.prems(1) by simp
    have g: "\<forall>m \<in> set merged. gap_before m (merge_into cur b)"
      using Cons.prems(3) by (simp add: gap_before_def)
    have f: "foldl merge_step (merged, merge_into cur b) rest = (merged', cur')"
      using Cons.prems(4) True by (simp add: merge_step_pair)
    show ?thesis by (rule Cons.IH [OF s Cons.prems(2) g f])
  next
    case False
    have s: "sorted (map start_date (b # rest))"
      using Cons.prems(1) by simp
    have le: "start_date cur \<le> start_date b"
      using Cons.prems(1) by simp
    have w: "sorted_wrt gap_before (merged @ [cur])"
      using Cons.prems(2,3) by (simp add: sorted_wrt_append)
    have g: "\<forall>m \<in> set (merged @ [cur]). gap_before m b"
      using Cons.prems(3) False le by (auto simp: gap_before_def)
    have f: "foldl merge_step (merged @ [cur], b) rest = (merged', cur')"
      using Cons.prems(4) False by (simp add: merge_step_pair)
    show ?thesis by (rule Cons.IH [OF s w g f])
  qed
qed

lemma merge_scan_gap:
  assumes "sorted (map start_date bs)"
  shows "sorted_wrt gap_before (merge_scan bs)"
proof (cases bs)
  case Nil
  then show ?thesis by (simp add: merge_scan_def)
next
  case (Cons b0 rest)
  obtain merged cur where f: "foldl merge_step ([], b0) rest = (merged, cur)"
    by (cases "foldl merge_step ([], b0) rest")
  have "sorted_wrt gap_before (merged @ [cur])"
    by (rule foldl_merge_step_gap [OF _ _ _ f]) (use assms Cons in simp_all)
  then show ?thesis using Cons f by (simp add: merge_scan_def)
qed

text \<open>C2: the events returned by \<open>_merge_bloom_events\<close> are in ascending order of
  \<open>start_date\<close>, and of two consecutive events the later one starts more than 7 days
  after the earlier one ends.\<close>

theorem merge_ordered_gap:
  "sorted (map start_date (merge_bloom_events evs)) \<and>
   (\<forall>i. Suc i < length (merge_bloom_events evs) \<longrightarrow>
      end_date (merge_bloom_events evs ! i) + 7 < start_date (merge_bloom_events evs ! Suc i))"
proof -
  let ?out = "merge_bloom_events evs"
  have "sorted_wrt gap_before (merge_scan (sort_key start_date evs))"
    by (rule merge_scan_gap) simp
  then have w: "sorted_wrt gap_before ?out"
    unfolding merge_bloom_events_def by (rule sorted_wrt_filter)
  have 1: "sorted (map start_date ?out)"
    using w by (simp add: sorted_wrt_map sorted_wrt_iff_nth_less gap_before_def)
  have 2: "\<forall>i. Suc i < length ?out \<longrightarrow> end_date (?out ! i) + 7 < start_date (?out ! Suc i)"
    using w by (simp add: sorted_wrt_iff_nth_less gap_before_def)
  show ?thesis using 1 2 by blast
qed

lemma merge_step_g_pair:
  "merge_step_g (merged, (cur, grp)) b =
     (if start_date b - end_date cur \<le> 7 then (merged, (merge_into cur b, grp @ [b]))
      else (merged @ [(cur, grp)], (b, [b])))"
  by (simp add: merge_step_g_def)

lemma foldl_merge_step_g_fst:
  "foldl merge_step_g (mg, (cur, grp)) rest = (mg', (cur', grp')) \<Longrightarrow>
   foldl merge_step (map fst mg, cur) rest = (map fst mg', cur')"
proof (induction rest arbitrary: mg cur grp)
  case Nil
  then show ?case by simp
next
  case (Cons b rest)
  show ?case
  proof (cases "start_date b - end_date cur \<le> 7")
    case True
    with Cons.prems have "foldl merge_step_g (mg, (merge_into cur b, grp @ [b])) rest = (mg', (cur', grp'))"
      by (simp add: merge_step_g_pair)
    from Cons.IH [OF this] True show ?thesis by (simp add: merge_step_pair)
  next
    case False
    with Cons.prems have "foldl merge_step_g (mg @ [(cur, grp)], (b, [b])) rest = (mg', (cur', grp'))"
      by (simp add: merge_step_g_pair)
    from Cons.IH [OF this] False show ?thesis by (simp add: merge_step_pair)
  qed
qed

lemma merge_scan_g_fst: "map fst (merge_scan_g bs) = merge_scan bs"
proof (cases bs)
  case Nil
  then show ?thesis by (simp add: merge_scan_g_def merge_scan_def)
next
  case (Cons b0 rest)
  obtain mg cur grp where f: "foldl merge_step_g ([], (b0, [b0])) rest = (mg, (cur, grp))"
    by (metis surj_pair)
  from foldl_merge_step_g_fst [OF f] f Cons show ?thesis
    by (simp add: merge_scan_g_def merge_scan_def)
qed

lemma merge_groups_fst: "map fst (merge_groups evs) = merge_bloom_events evs"
  by (simp add: merge_groups_def merge_bloom_events_def merge_scan_g_fst [symmetric] filter_map comp_def)

lemma foldl_merge_step_g_concat:
  "foldl merge_step_g (mg, (cur, grp)) rest = (mg', (cur', grp')) \<Longrightarrow>
   concat (map snd mg') @ grp' = concat (map snd mg) @ grp @ rest"
proof (induction rest arbitrary: mg cur grp)
  case Nil
  then show ?case by simp
next
  case (Cons b rest)
  show ?case
  proof (cases "start_date b - end_date cur \<le> 7")
    case True
    with Cons.prems have "foldl merge_step_g (mg, (merge_into cur b, grp @ [b])) rest = (mg', (cur', grp'))"
      by (simp add: merge_step_g_pair)
    from Cons.IH [OF this] show ?thesis by simp
  next
    case False
    with Cons.prems have "foldl merge_step_g (mg @ [(cur, grp)], (b, [b])) rest = (mg', (cur', grp'))"
      by (simp add: merge_step_g_pair)
    from Cons.IH [OF this] show ?thesis by simp
  qed
qed

lemma merge_scan_g_concat: "concat (map snd (merge_scan_g bs)) = bs"
proof (cases bs)
  case Nil
  then show ?thesis by (simp add: merge_scan_g_def)
next
  case (Cons b0 rest)
  obtain mg cur grp where f: "foldl merge_step_g ([], (b0, [b0])) rest = (mg, (cur, grp))"
    by (metis surj_pair)
  from foldl_merge_step_g_concat [OF f] f Cons show ?thesis
    by (simp add: merge_scan_g_def)
qed

lemma foldl_merge_step_g_inv:
  assumes step: "\<And>cur grp b. P cur grp \<Longrightarrow> P (merge_into cur b) (grp @ [b])"
    and single: "\<And>b. P b [b]"
  shows "\<forall>eg \<in> set mg. P (fst eg) (snd eg) \<Longrightarrow> P cur grp \<Longrightarrow>
    foldl merge_step_g (mg, (cur, grp)) rest = (mg', (cur', grp')) \<Longrightarrow>
    (\<forall>eg \<in> set mg'. P (fst eg) (snd eg)) \<and> P cur' grp'"
proof (induction rest arbitrary: mg cur grp)
  case Nil
  then show ?case by simp
next
  case (Cons b rest)
  show ?case
  proof (cases "start_date b - end_date cur \<le> 7")
    case True
    with Cons.prems(3) have f: "foldl merge_step_g (mg, (merge_into cur b, grp @ [b])) rest = (mg', (cur', grp'))"
      by (simp add: merge_step_g_pair)
    show ?thesis by (rule Cons.IH [OF Cons.prems(1) step [OF Cons.prems(2)] f])
  next
    case False
    with Cons.prems(3) have f: "foldl merge_step_g (mg @ [(cur, grp)], (b, [b])) rest = (mg', (cur', grp'))"
      by (simp add: merge_step_g_pair)
    have a: "\<forall>eg \<in> set (mg @ [(cur, grp)]). P (fst eg) (snd eg)"
      using Cons.prems(1,2) by simp
    show ?thesis by (rule Cons.IH [OF a single f])
  qed
qed

lemma merge_scan_g_inv:
  assumes step: "\<And>cur grp b. P cur grp \<Longrightarrow> P (merge_into cur b) (grp @ [b])"
    and single: "\<And>b. P b [b]"
  shows "\<forall>eg \<in> set (merge_scan_g bs). P (fst eg) (snd eg)"
proof (cases bs)
  case Nil
  then show ?thesis by (simp add: merge_scan_g_def)
next
  case (Cons b0 rest)
  obtain mg cur grp where f: "foldl merge_step_g ([], (b0, [b0])) rest = (mg, (cur, grp))"
    by (metis surj_pair)
  have "(\<forall>eg \<in> set mg. P (fst eg) (snd eg)) \<and> P cur grp"
    by (rule foldl_merge_step_g_inv [of P, OF step single _ single f]) simp_all
  then show ?thesis using Cons f by (simp add: merge_scan_g_def)
qed

lemma peaks_are_maxima_single: "peaks_are_maxima b [b]"
  by (simp add: peaks_are_maxima_def)

lemma peaks_are_maxima_step:
  "peaks_are_maxima cur grp \<Longrightarrow> peaks_are_maxima (merge_into cur b) (grp @ [b])"
  by (simp add: peaks_are_maxima_def merge_into_def max.commute)

lemma keeps_first_single: "keeps_first b [b]"
  by (simp add: keeps_first_def)

lemma keeps_first_step:
  "keeps_first cur grp \<Longrightarrow> keeps_first (merge_into cur b) (grp @ [b])"
  by (simp add: keeps_first_def merge_into_def)

text \<open>C3: every returned event comes with the list of the candidates merged into it (a
  segment of the sorted input; the segments concatenated are the sorted input), and its
  \<open>peak_ndvi\<close>, \<open>peak_evi\<close>, \<open>bloom_intensity\<close> and \<open>confidence_score\<close> are the maxima of
  these fields over that list.\<close>

theorem merge_peaks_are_maxima:
  "map fst (merge_groups evs) = merge_bloom_events evs \<and>
   concat (map snd (merge_scan_g (sort_key start_date evs))) = sort_key start_date evs \<and>
   (\<forall>eg \<in> set (merge_groups evs).
      eg \<in> set (merge_scan_g (sort_key start_date evs)) \<and>
      snd eg \<noteq> [] \<and>
      peak_ndvi (fst eg) = Max (peak_ndvi ` set (snd eg)) \<and>
      peak_evi (fst eg) = Max (peak_evi ` set (snd eg)) \<and>
      bloom_intensity (fst eg) = Max (bloom_intensity ` set (snd eg)) \<and>
      confidence_score (fst eg) = Max (confidence_score ` set (snd eg)))"
proof -
  have "\<forall>eg \<in> set (merge_scan_g (sort_key start_date evs)). peaks_are_maxima (fst eg) (snd eg)"
    by (rule merge_scan_g_inv [OF peaks_are_maxima_step peaks_are_maxima_single])
  then have "\<forall>eg \<in> set (merge_groups evs).
      eg \<in> set (merge_scan_g (sort_key start_date evs)) \<and> peaks_are_maxima (fst eg) (snd eg)"
    by (simp add: merge_groups_def)
  then show ?thesis
    by (simp add: merge_groups_fst merge_scan_g_concat peaks_are_maxima_def)
qed

lemmas ex_defs = ex_a_def ex_b_def ex_c_def ex_d_def ex_ab_def

lemma merge_examples:
  "merge_bloom_events [ex_c, ex_d, ex_b, ex_a] = [ex_ab, ex_c]"
  by (simp add: merge_bloom_events_def merge_scan_def merge_step_pair merge_into_def
      min_bloom_duration_def ex_defs)

lemma merge_groups_examples:
  "merge_groups [ex_c, ex_d, ex_b, ex_a] = [(ex_ab, [ex_a, ex_b]), (ex_c, [ex_c])]"
  by (simp add: merge_groups_def merge_scan_g_def merge_step_g_pair merge_into_def
      min_bloom_duration_def ex_defs)

text \<open>C1 as stated fails: two candidates of 100 and 115 days, 5 days apart, merge into one
  event of 220 days, which is returned although it exceeds \<open>max_bloom_duration\<close>.\<close>

theorem merge_max_duration_counterexample:
  "merge_bloom_events [ex_a, ex_b] = [ex_ab] \<and>
   duration_days ex_a \<le> max_bloom_duration \<and> duration_days ex_b \<le> max_bloom_duration \<and>
   \<not> duration_days ex_ab \<le> max_bloom_duration"
  by (simp add: merge_bloom_events_def merge_scan_def merge_step_pair merge_into_def
      min_bloom_duration_def max_bloom_duration_def ex_defs)

text \<open>C1 (as amended) at a concrete input.\<close>

theorem merge_min_duration_witness:
  "merge_bloom_events [ex_c, ex_d, ex_b, ex_a] = [ex_ab, ex_c] \<and>
   min_bloom_duration \<le> duration_days ex_ab \<and> min_bloom_duration \<le> duration_days ex_c"
  using merge_min_duration [of "[ex_c, ex_d, ex_b, ex_a]"]
  by (simp add: merge_examples)

text \<open>C2 at a concrete input.\<close>

theorem merge_ordered_gap_witness:
  "merge_bloom_events [ex_c, ex_d, ex_b, ex_a] = [ex_ab, ex_c] \<and>
   start_date ex_ab \<le> start_date ex_c \<and> end_date ex_ab + 7 < start_date ex_c"
  using merge_ordered_gap [of "[ex_c, ex_d, ex_b, ex_a]"]
  by (simp add: merge_examples)

text \<open>C3 at a concrete input.\<close>

theorem merge_peaks_are_maxima_witness:
  "merge_groups [ex_c, ex_d, ex_b, ex_a] = [(ex_ab, [ex_a, ex_b]), (ex_c, [ex_c])] \<and>
   peak_ndvi ex_ab = Max {peak_ndvi ex_a, peak_ndvi ex_b} \<and>
   confidence_score ex_ab = Max {confidence_score ex_a, confidence_score ex_b}"
  using merge_peaks_are_maxima [of "[ex_c, ex_d, ex_b, ex_a]"]
  by (simp add: merge_groups_examples)

text \<open>C10: a merge step leaves \<open>start_date\<close>, \<open>peak_date\<close> and \<open>detection_method\<close> of the
  accumulated event unchanged, so every returned event has these three fields of the first
  (earliest sorted) candidate merged into it; and there is an input with a returned event
  whose \<open>peak_date\<close> is the peak date of no candidate that attains its \<open>peak_ndvi\<close>.\<close>

theorem merge_frame:
  "start_date (merge_into cur b) = start_date cur \<and>
   peak_date (merge_into cur b) = peak_date cur \<and>
   detection_method (merge_into cur b) = detection_method cur \<and>
   (\<forall>eg \<in> set (merge_groups evs).
      snd eg \<noteq> [] \<and>
      start_date (fst eg) = start_date (hd (snd eg)) \<and>
      peak_date (fst eg) = peak_date (hd (snd eg)) \<and>
      detection_method (fst eg) = detection_method (hd (snd eg))) \<and>
   (\<exists>cs e. e \<in> set (merge_bloom_events cs) \<and>
      (\<forall>c \<in> set cs. peak_ndvi c = peak_ndvi e \<longrightarrow> peak_date c \<noteq> peak_date e))"
proof -
  have "\<forall>eg \<in> set (merge_scan_g (sort_key start_date evs)). keeps_first (fst eg) (snd eg)"
    by (rule merge_scan_g_inv [OF keeps_first_step keeps_first_single])
  then have g: "\<forall>eg \<in> set (merge_groups evs). keeps_first (fst eg) (snd eg)"
    by (simp add: merge_groups_def)
  have "ex_ab \<in> set (merge_bloom_events [ex_c, ex_d, ex_b, ex_a]) \<and>
      (\<forall>c \<in> set [ex_c, ex_d, ex_b, ex_a]. peak_ndvi c = peak_ndvi ex_ab \<longrightarrow> peak_date c \<noteq> peak_date ex_ab)"
    by (simp add: merge_examples) (simp add: ex_defs)
  then have x: "\<exists>cs e. e \<in> set (merge_bloom_events cs) \<and>
      (\<forall>c \<in> set cs. peak_ndvi c = peak_ndvi e \<longrightarrow> peak_date c \<noteq> peak_date e)"
    by blast
  have f: "start_date (merge_into cur b) = start_date cur \<and>
   peak_date (merge_into cur b) = peak_date cur \<and>
   detection_method (merge_into cur b) = detection_method cur"
    by (simp add: merge_into_def)
  from g have g': "\<forall>eg \<in> set (merge_groups evs).
      snd eg \<noteq> [] \<and>
      start_date (fst eg) = start_date (hd (snd eg)) \<and>
      peak_date (fst eg) = peak_date (hd (snd eg)) \<and>
      detection_method (fst eg) = detection_method (hd (snd eg))"
    by (simp add: keeps_first_def)
  from f g' x show ?thesis by blast
qed

text \<open>C10 at a concrete input.\<close>

theorem merge_frame_witness:
  "merge_groups [ex_c, ex_d, ex_b, ex_a] = [(ex_ab, [ex_a, ex_b]), (ex_c, [ex_c])] \<and>
   peak_date ex_ab = peak_date ex_a \<and> detection_method ex_ab = detection_method ex_a \<and>
   peak_ndvi ex_ab = peak_ndvi ex_b \<and> peak_date ex_ab \<noteq> peak_date ex_b \<and>
   peak_ndvi ex_a < peak_ndvi ex_b"
  using merge_frame [of ex_a ex_b "[ex_c, ex_d, ex_b, ex_a]"]
  by (simp add: merge_groups_examples) (simp add: ex_defs)

section \<open>Properties of the preprocessor\<close>

lemma in_range_mask_outliers: "in_range (mask_outliers v)"
  by (cases v) (auto simp: in_range_def mask_outliers_def)

lemma convex_bound:
  fixes a b t :: real
  assumes "0 \<le> t" "t \<le> 1" "- 1 \<le> a" "a \<le> 1" "- 1 \<le> b" "b \<le> 1"
  shows "- 1 \<le> a + (b - a) * t \<and> a + (b - a) * t \<le> 1"
proof -
  have e: "a + (b - a) * t = a * (1 - t) + b * t"
    by (simp add: algebra_simps)
  have 1: "a * (1 - t) \<le> 1 * (1 - t)" "(- 1) * (1 - t) \<le> a * (1 - t)"
    using assms by (intro mult_right_mono; simp)+
  have 2: "b * t \<le> 1 * t" "(- 1) * t \<le> b * t"
    using assms by (intro mult_right_mono; simp)+
  show ?thesis unfolding e using 1 2 by simp
qed

lemma next_valid_range:
  "list_all in_range xs \<Longrightarrow> next_valid xs = Some (d, b) \<Longrightarrow> - 1 \<le> b \<and> b \<le> 1 \<and> 0 < d"
  by (induction xs arbitrary: d rule: next_valid.induct)
     (auto simp: in_range_def split: option.splits)

lemma interp_go_range:
  "list_all in_range xs \<Longrightarrow> - 1 \<le> a \<Longrightarrow> a \<le> 1 \<Longrightarrow> list_all in_range (interp_go lmt a j xs)"
proof (induction lmt a j xs rule: interp_go.induct)
  case (1 lmt a j)
  then show ?case by simp
next
  case (2 lmt a j b xs)
  then show ?case by (simp add: in_range_def)
next
  case (3 lmt a j xs)
  have tl: "list_all in_range (interp_go lmt a (Suc j) xs)"
    using 3 by simp
  have hd: "in_range (Some (case next_valid xs of None \<Rightarrow> a
              | Some (d, b) \<Rightarrow> a + (b - a) * real (Suc j) / real (Suc j + d)))"
  proof (cases "next_valid xs")
    case None
    then show ?thesis using 3 by (simp add: in_range_def)
  next
    case (Some db)
    obtain d b where db: "db = (d, b)" by (cases db)
    have b: "- 1 \<le> b \<and> b \<le> 1"
      using next_valid_range [of xs d b] 3 Some db by simp
    let ?t = "real (Suc j) / real (Suc j + d)"
    have t: "0 \<le> ?t" "?t \<le> 1" by simp_all
    have "- 1 \<le> a + (b - a) * ?t \<and> a + (b - a) * ?t \<le> 1"
      using convex_bound [OF t] 3 b by simp
    then show ?thesis using Some db by (simp add: in_range_def)
  qed
  have "in_range (if Suc j \<le> lmt
      then Some (case next_valid xs of None \<Rightarrow> a
              | Some (d, b) \<Rightarrow> a + (b - a) * real (Suc j) / real (Suc j + d))
      else None)"
    using hd by (simp add: in_range_def)
  then show ?case using tl by simp
qed

lemma interpolate_range: "list_all in_range xs \<Longrightarrow> list_all in_range (interpolate lmt xs)"
  by (induction lmt xs rule: interpolate.induct) (auto simp: in_range_def intro: interp_go_range)

lemma length_interp_go [simp]: "length (interp_go lmt a j xs) = length xs"
  by (induction lmt a j xs rule: interp_go.induct) auto

lemma length_interpolate [simp]: "length (interpolate lmt xs) = length xs"
  by (induction lmt xs rule: interpolate.induct) auto

lemma interpolate_masked_range:
  "list_all in_range (interpolate lmt (map (mask_outliers \<circ> f) df))"
  by (rule interpolate_range) (simp add: list_all_iff in_range_mask_outliers)

lemma set_columns_cols:
  assumes "length ns = length df" "length es = length df"
  shows "length (set_columns df ns es) = length df"
    and "map raw_ndvi (set_columns df ns es) = ns"
    and "map raw_evi (set_columns df ns es) = es"
    and "map raw_date (set_columns df ns es) = map raw_date df"
    and "map raw_label (set_columns df ns es) = map raw_label df"
  using assms by (auto simp: set_columns_def list_eq_iff_nth_eq)

lemma set_columns_twice:
  assumes "length ns = length df" "length es = length df"
    "length ns' = length df" "length es' = length df"
  shows "set_columns (set_columns df ns es) ns' es' = set_columns df ns' es'"
  using assms by (auto simp: set_columns_def list_eq_iff_nth_eq)

text \<open>The three ways out of \<open>_clean_time_series\<close>, each in terms of the frame it was given.\<close>

lemma clean_time_series_cases:
  "clean_time_series raises df =
     (if raises (map (mask_outliers \<circ> raw_ndvi) df)
      then set_columns df (map (mask_outliers \<circ> raw_ndvi) df) (map (mask_outliers \<circ> raw_evi) df)
      else if raises (map (mask_outliers \<circ> raw_evi) df)
      then set_columns df (interpolate 3 (map (mask_outliers \<circ> raw_ndvi) df))
             (map (mask_outliers \<circ> raw_evi) df)
      else dropna (set_columns df (interpolate 3 (map (mask_outliers \<circ> raw_ndvi) df))
             (interpolate 3 (map (mask_outliers \<circ> raw_evi) df))))"
  unfolding clean_time_series_def Let_def
  by (simp add: set_columns_cols set_columns_twice)

lemma masked_range: "list_all in_range (map (mask_outliers \<circ> f) df)"
  by (simp add: list_all_iff in_range_mask_outliers)

lemma set_columns_range:
  assumes "length ns = length df" "length es = length df"
    and "list_all in_range ns" "list_all in_range es"
  shows "\<forall>r \<in> set (set_columns df ns es). in_range (raw_ndvi r) \<and> in_range (raw_evi r)"
proof
  fix r assume r: "r \<in> set (set_columns df ns es)"
  then have "raw_ndvi r \<in> set (map raw_ndvi (set_columns df ns es))"
    and "raw_evi r \<in> set (map raw_evi (set_columns df ns es))"
    by simp_all
  then have "raw_ndvi r \<in> set ns" "raw_evi r \<in> set es"
    by (simp_all only: set_columns_cols [OF assms(1,2)])
  then show "in_range (raw_ndvi r) \<and> in_range (raw_evi r)"
    using assms(3,4) by (simp add: list_all_iff)
qed

lemma dropna_subset: "set (dropna df) \<subseteq> set df"
  by (auto simp: dropna_def)

lemma dropna_notna: "\<forall>r \<in> set (dropna df). notna (raw_ndvi r) \<and> notna (raw_evi r)"
  by (simp add: dropna_def)

lemma dropna_length: "length (dropna df) \<le> length df"
  by (simp add: dropna_def)

lemma dropna_dates_subseq: "subseq (map raw_date (dropna df)) (map raw_date df)"
  unfolding dropna_def by (intro subseq_map subseq_filter_left)

lemma dropna_dates_sorted_wrt:
  assumes "sorted_wrt R (map raw_date df)"
  shows "sorted_wrt R (map raw_date (dropna df))"
proof -
  have "sorted_wrt (\<lambda>x y. R (raw_date x) (raw_date y)) df"
    using assms by (simp only: sorted_wrt_map)
  then have "sorted_wrt (\<lambda>x y. R (raw_date x) (raw_date y)) (dropna df)"
    unfolding dropna_def by (rule sorted_wrt_filter)
  then show ?thesis by (simp only: sorted_wrt_map)
qed

lemma clean_range:
  "\<forall>r \<in> set (clean_time_series raises df). in_range (raw_ndvi r) \<and> in_range (raw_evi r)"
proof -
  let ?nm = "map (mask_outliers \<circ> raw_ndvi) df" and ?em = "map (mask_outliers \<circ> raw_evi) df"
  note m = masked_range [of raw_ndvi df] masked_range [of raw_evi df]
  note i = interpolate_range [OF m(1), of 3] interpolate_range [OF m(2), of 3]
  have 1: "\<forall>r \<in> set (set_columns df ?nm ?em). in_range (raw_ndvi r) \<and> in_range (raw_evi r)"
    by (rule set_columns_range [OF _ _ m]) simp_all
  have 2: "\<forall>r \<in> set (set_columns df (interpolate 3 ?nm) ?em). in_range (raw_ndvi r) \<and> in_range (raw_evi r)"
    by (rule set_columns_range [OF _ _ i(1) m(2)]) simp_all
  have "\<forall>r \<in> set (set_columns df (interpolate 3 ?nm) (interpolate 3 ?em)).
      in_range (raw_ndvi r) \<and> in_range (raw_evi r)"
    by (rule set_columns_range [OF _ _ i]) simp_all
  then have 3: "\<forall>r \<in> set (dropna (set_columns df (interpolate 3 ?nm) (interpolate 3 ?em))).
      in_range (raw_ndvi r) \<and> in_range (raw_evi r)"
    using dropna_subset by blast
  show ?thesis
    unfolding clean_time_series_cases using 1 2 3 by simp
qed

lemma clean_length: "length (clean_time_series raises df) \<le> length df"
proof -
  have "length (dropna (set_columns df ns es)) \<le> length df"
    if "length ns = length df" "length es = length df" for ns es
    using dropna_length [of "set_columns df ns es"] set_columns_cols(1) [OF that] by simp
  then show ?thesis
    unfolding clean_time_series_cases by (simp add: set_columns_cols)
qed

lemma clean_dates_subseq:
  "subseq (map raw_date (clean_time_series raises df)) (map raw_date df)"
proof -
  have "subseq (map raw_date (dropna (set_columns df ns es))) (map raw_date df)"
    if "length ns = length df" "length es = length df" for ns es
    using dropna_dates_subseq [of "set_columns df ns es"] set_columns_cols(4) [OF that] by simp
  then show ?thesis
    unfolding clean_time_series_cases by (simp add: set_columns_cols)
qed

lemma clean_dates_sorted_wrt:
  assumes "sorted_wrt R (map raw_date df)"
  shows "sorted_wrt R (map raw_date (clean_time_series raises df))"
proof -
  have "sorted_wrt R (map raw_date (dropna (set_columns df ns es)))"
    if "length ns = length df" "length es = length df" for ns es
    by (rule dropna_dates_sorted_wrt) (simp add: set_columns_cols(4) [OF that] assms)
  then show ?thesis
    unfolding clean_time_series_cases using assms by (simp add: set_columns_cols)
qed

lemma clean_notna:
  assumes "\<not> raises (map (mask_outliers \<circ> raw_ndvi) df)" "\<not> raises (map (mask_outliers \<circ> raw_evi) df)"
  shows "\<forall>r \<in> set (clean_time_series raises df). notna (raw_ndvi r) \<and> notna (raw_evi r)"
  unfolding clean_time_series_cases using assms dropna_notna by simp

lemma clean_raised:
  assumes "raises (map (mask_outliers \<circ> raw_ndvi) df) \<or> raises (map (mask_outliers \<circ> raw_evi) df)"
  shows "length (clean_time_series raises df) = length df"
    and "map raw_date (clean_time_series raises df) = map raw_date df"
  unfolding clean_time_series_cases using assms by (auto simp: set_columns_cols)

lemma with_smooth_cols:
  assumes "length ns = length df" "length es = length df"
  shows "map raw_date (with_smooth df ns es) = map raw_date df"
    and "map raw_ndvi (with_smooth df ns es) = map raw_ndvi df"
    and "map raw_evi (with_smooth df ns es) = map raw_evi df"
    and "map raw_label (with_smooth df ns es) = map raw_label df"
    and "map raw_ndvi_smooth (with_smooth df ns es) = ns"
    and "map raw_evi_smooth (with_smooth df ns es) = es"
    and "length (with_smooth df ns es) = length df"
  using assms
  by (auto simp: with_smooth_def list_eq_iff_nth_eq)

lemma smooth_cases:
  "smooth_time_series sg df = with_smooth df (map raw_ndvi df) (map raw_evi df) \<or>
   (5 \<le> window_length (length df) \<and>
    (\<exists>ns es. length ns = length df \<and> length es = length df \<and>
       smooth_time_series sg df = with_smooth df ns es))"
proof (cases "sg (map raw_ndvi df) (window_length (length df)) 3")
  case Inl
  then show ?thesis by (simp add: smooth_time_series_def Let_def)
next
  case ns: (Inr ns)
  show ?thesis
  proof (cases "sg (map raw_evi df) (window_length (length df)) 3")
    case Inl
    then show ?thesis using ns by (simp add: smooth_time_series_def Let_def)
  next
    case es: (Inr es)
    show ?thesis
    proof (cases "5 \<le> window_length (length df) \<and> length ns = length df \<and> length es = length df")
      case True
      then have "smooth_time_series sg df = with_smooth df ns es"
        using ns es by (simp add: smooth_time_series_def Let_def)
      then show ?thesis using True by blast
    next
      case False
      then have "smooth_time_series sg df = with_smooth df (map raw_ndvi df) (map raw_evi df)"
        using ns es by (auto simp: smooth_time_series_def Let_def)
      then show ?thesis by simp
    qed
  qed
qed

lemma window_length_small: "window_length n < 5 \<longleftrightarrow> n < 12"
  by (auto simp: window_length_def Let_def min_def) presburger+

lemma window_length_short: "n < 12 \<Longrightarrow> \<not> 5 \<le> window_length n"
  using window_length_small [of n] by simp

lemma smooth_keeps:
  "length (smooth_time_series sg df) = length df \<and>
   map raw_date (smooth_time_series sg df) = map raw_date df \<and>
   map raw_ndvi (smooth_time_series sg df) = map raw_ndvi df \<and>
   map raw_evi (smooth_time_series sg df) = map raw_evi df \<and>
   map raw_label (smooth_time_series sg df) = map raw_label df"
  using smooth_cases [of sg df] by (auto simp: with_smooth_cols)

lemma smooth_short:
  assumes "length df < 12"
  shows "map raw_ndvi_smooth (smooth_time_series sg df) = map raw_ndvi df \<and>
         map raw_evi_smooth (smooth_time_series sg df) = map raw_evi df"
  using smooth_cases [of sg df] window_length_short [OF assms] by (auto simp: with_smooth_cols)

lemma smooth_rows_of_clean:
  assumes r: "r \<in> set (smooth_time_series sg df)"
  shows "\<exists>c \<in> set df. raw_ndvi c = raw_ndvi r \<and> raw_evi c = raw_evi r"
proof -
  from r obtain i where i: "i < length (smooth_time_series sg df)" "r = smooth_time_series sg df ! i"
    by (auto simp: in_set_conv_nth)
  note k = smooth_keeps [of sg df]
  from i k have l: "i < length df" by simp
  have "map raw_ndvi df ! i = raw_ndvi r"
    using k i by (metis nth_map)
  then have 1: "raw_ndvi (df ! i) = raw_ndvi r" using l by simp
  have "map raw_evi df ! i = raw_evi r"
    using k i by (metis nth_map)
  then have 2: "raw_evi (df ! i) = raw_evi r" using l by simp
  show ?thesis using 1 2 l by (intro bexI [of _ "df ! i"]) simp_all
qed

text \<open>C5 (as amended): the series produced by \<open>_clean_time_series\<close> followed by
  \<open>_smooth_time_series\<close> has at most as many rows as the input; its dates are a subsequence
  of the input's dates, so they ascend when the input's do and strictly when the input's do
  strictly; every \<open>ndvi\<close> and \<open>evi\<close> value that is present lies in \<open>[-1, 1]\<close>; when
  \<open>interpolate\<close> raises on neither column no value is missing, and when it raises on one
  the frame comes back with all its rows and dates; and with fewer than 12 rows the smoothed
  columns are the raw ones.\<close>

theorem preprocess_invariants:
  "length (smooth_time_series sg (clean_time_series raises df)) \<le> length df \<and>
   subseq (map raw_date (smooth_time_series sg (clean_time_series raises df))) (map raw_date df) \<and>
   (sorted (map raw_date df) \<longrightarrow>
      sorted (map raw_date (smooth_time_series sg (clean_time_series raises df)))) \<and>
   (sorted_wrt (<) (map raw_date df) \<longrightarrow>
      sorted_wrt (<) (map raw_date (smooth_time_series sg (clean_time_series raises df)))) \<and>
   (\<forall>r \<in> set (smooth_time_series sg (clean_time_series raises df)).
      in_range (raw_ndvi r) \<and> in_range (raw_evi r)) \<and>
   (\<not> raises (map (mask_outliers \<circ> raw_ndvi) df) \<and> \<not> raises (map (mask_outliers \<circ> raw_evi) df) \<longrightarrow>
      (\<forall>r \<in> set (smooth_time_series sg (clean_time_series raises df)).
         notna (raw_ndvi r) \<and> notna (raw_evi r))) \<and>
   (raises (map (mask_outliers \<circ> raw_ndvi) df) \<or> raises (map (mask_outliers \<circ> raw_evi) df) \<longrightarrow>
      length (smooth_time_series sg (clean_time_series raises df)) = length df \<and>
      map raw_date (smooth_time_series sg (clean_time_series raises df)) = map raw_date df) \<and>
   (length (clean_time_series raises df) < 12 \<longrightarrow>
      (\<forall>r \<in> set (smooth_time_series sg (clean_time_series raises df)).
         raw_ndvi_smooth r = raw_ndvi r \<and> raw_evi_smooth r = raw_evi r \<and>
         in_range (raw_ndvi_smooth r) \<and> in_range (raw_evi_smooth r)))"
proof -
  let ?c = "clean_time_series raises df"
  let ?out = "smooth_time_series sg ?c"
  note k = smooth_keeps [of sg ?c]
  have 1: "length ?out \<le> length df"
    using k clean_length [of raises df] by simp
  have 2: "subseq (map raw_date ?out) (map raw_date df)"
    using k clean_dates_subseq [of raises df] by simp
  have 3: "sorted_wrt R (map raw_date df) \<longrightarrow> sorted_wrt R (map raw_date ?out)" for R
    using k clean_dates_sorted_wrt [of R df raises] by simp
  have rng: "in_range (raw_ndvi r) \<and> in_range (raw_evi r)" if "r \<in> set ?out" for r
    using smooth_rows_of_clean [OF that] clean_range [of raises df] by metis
  have na: "notna (raw_ndvi r) \<and> notna (raw_evi r)"
    if "\<not> raises (map (mask_outliers \<circ> raw_ndvi) df) \<and> \<not> raises (map (mask_outliers \<circ> raw_evi) df)"
      "r \<in> set ?out" for r
    using smooth_rows_of_clean [OF that(2)] clean_notna [of raises df] that(1) by metis
  have ex: "length ?out = length df \<and> map raw_date ?out = map raw_date df"
    if "raises (map (mask_outliers \<circ> raw_ndvi) df) \<or> raises (map (mask_outliers \<circ> raw_evi) df)"
    using k clean_raised [OF that] by simp
  have sm: "raw_ndvi_smooth r = raw_ndvi r \<and> raw_evi_smooth r = raw_evi r \<and>
         in_range (raw_ndvi_smooth r) \<and> in_range (raw_evi_smooth r)"
    if "length ?c < 12" "r \<in> set ?out" for r
  proof -
    from smooth_short [OF that(1), of sg] k
    have "map raw_ndvi_smooth ?out = map raw_ndvi ?out" "map raw_evi_smooth ?out = map raw_evi ?out"
      by simp_all
    then have "raw_ndvi_smooth r = raw_ndvi r \<and> raw_evi_smooth r = raw_evi r"
      using that(2) by (simp add: map_eq_conv)
    then show ?thesis using rng [OF that(2)] by simp
  qed
  show ?thesis using 1 2 3 [of "(\<le>)"] 3 [of "(<)"] rng na ex sm by simp
qed

lemma reset_dup: "reset_index raw_dup =
  [\<lparr> raw_label = 0, raw_date = 5, raw_ndvi = Some (5/10), raw_evi = Some (4/10) \<rparr>,
   \<lparr> raw_label = 1, raw_date = 5, raw_ndvi = Some (6/10), raw_evi = Some (4/10) \<rparr>]"
  by (simp add: reset_index_def raw_dup_def)

lemmas clean_eval = clean_time_series_def set_columns_def dropna_def mask_outliers_def notna_def
  never_raises_def object_column_raises_def

lemma clean_dup:
  "clean_time_series never_raises (reset_index raw_dup) = reset_index raw_dup"
  "clean_time_series object_column_raises (reset_index raw_dup) = reset_index raw_dup"
  by (simp_all add: reset_dup clean_eval)

lemma dates_dup:
  "map raw_date (smooth_time_series sg (clean_time_series never_raises (reset_index raw_dup))) = [5, 5]"
  "map raw_date (smooth_time_series sg (clean_time_series object_column_raises (reset_index raw_dup))) = [5, 5]"
  by (simp_all add: clean_dup smooth_keeps) (simp_all add: reset_dup)

lemma reset_no_ndvi: "reset_index raw_no_ndvi =
  [\<lparr> raw_label = 0, raw_date = 0, raw_ndvi = None, raw_evi = Some (5/10) \<rparr>,
   \<lparr> raw_label = 1, raw_date = 16, raw_ndvi = None, raw_evi = Some (4/10) \<rparr>,
   \<lparr> raw_label = 2, raw_date = 32, raw_ndvi = None, raw_evi = Some (3/10) \<rparr>]"
  by (simp add: reset_index_def raw_no_ndvi_def)

lemma clean_no_ndvi:
  "clean_time_series object_column_raises (reset_index raw_no_ndvi) = reset_index raw_no_ndvi"
  by (simp add: reset_no_ndvi clean_eval)

lemma ndvi_no_ndvi:
  "map raw_ndvi (smooth_time_series sg (clean_time_series object_column_raises (reset_index raw_no_ndvi)))
     = [None, None, None]"
  by (simp add: clean_no_ndvi smooth_keeps) (simp add: reset_no_ndvi)

text \<open>C5 as stated fails: two observations on the same day, sorted by date, both come out,
  so the output dates are neither strictly ascending nor unique; and where \<open>interpolate\<close>
  raises on a column of \<open>None\<close> only, three observations without NDVI come out with their NDVI
  missing.\<close>

theorem preprocess_duplicate_dates_counterexample:
  "sorted (map fst raw_dup) \<and>
   map raw_date (smooth_time_series no_savgol (clean_time_series never_raises (reset_index raw_dup))) = [5, 5] \<and>
   map raw_date (smooth_time_series no_savgol (clean_time_series object_column_raises (reset_index raw_dup))) = [5, 5] \<and>
   \<not> sorted_wrt (<) (map raw_date (smooth_time_series no_savgol (clean_time_series never_raises (reset_index raw_dup)))) \<and>
   \<not> distinct (map raw_date (smooth_time_series no_savgol (clean_time_series never_raises (reset_index raw_dup)))) \<and>
   map raw_ndvi (smooth_time_series no_savgol
      (clean_time_series object_column_raises (reset_index raw_no_ndvi))) = [None, None, None]"
  by (simp add: dates_dup ndvi_no_ndvi) (simp add: raw_dup_def)

lemma reset_gap: "reset_index raw_gap =
  [\<lparr> raw_label = 0, raw_date = 0, raw_ndvi = Some (5/10), raw_evi = Some (5/10) \<rparr>,
   \<lparr> raw_label = 1, raw_date = 16, raw_ndvi = None, raw_evi = Some (5/10) \<rparr>,
   \<lparr> raw_label = 2, raw_date = 32, raw_ndvi = None, raw_evi = Some (5/10) \<rparr>,
   \<lparr> raw_label = 3, raw_date = 48, raw_ndvi = None, raw_evi = Some (5/10) \<rparr>,
   \<lparr> raw_label = 4, raw_date = 64, raw_ndvi = None, raw_evi = Some (5/10) \<rparr>,
   \<lparr> raw_label = 5, raw_date = 80, raw_ndvi = Some (9/10), raw_evi = Some (5/10) \<rparr>,
   \<lparr> raw_label = 6, raw_date = 96, raw_ndvi = Some (6/10), raw_evi = Some (5/10) \<rparr>]"
  by (simp add: reset_index_def raw_gap_def)

lemma clean_gap:
  "clean_time_series never_raises (reset_index raw_gap) = clean_gap_frame"
  "clean_time_series object_column_raises (reset_index raw_gap) = clean_gap_frame"
  by (simp_all add: reset_gap clean_eval clean_gap_frame_def)

lemma smooth_gap: "rows_of (smooth_time_series sg clean_gap_frame) = Some df_gap"
  by (simp add: clean_gap_frame_def smooth_time_series_def Let_def window_length_short with_smooth_def
      rows_of_def complete_row_def row_of_def notna_def df_gap_def mk_row_def)

lemma periods_gap: "find_continuous_periods (bloom_mask df_gap) = [(0, 5)]"
  by (simp add: find_continuous_periods_def period_step_def bloom_mask_def df_gap_def mk_row_def
      ndvi_bloom_threshold_def evi_bloom_threshold_def)

lemma threshold_gap: "threshold_blooms_try df_gap =
   Inr [\<lparr>start_date = 0, peak_date = 96, end_date = 96, duration_days = 96,
     peak_ndvi = 6 / 10, peak_evi = 5 / 10, bloom_intensity = 55 / 100,
     confidence_score = 7 / 10, detection_method = ''threshold''\<rparr>]"
  unfolding threshold_blooms_try_def periods_gap
  by (simp add: threshold_bloom_def iloc_def iloc_slice_def
      idxmax_def argmax_def make_bloom_def df_gap_def mk_row_def)

text \<open>C5 (as amended) at a concrete input.\<close>

theorem preprocess_invariants_witness:
  "sorted (map raw_date (reset_index raw_gap)) \<and>
   \<not> never_raises (map (mask_outliers \<circ> raw_ndvi) (reset_index raw_gap)) \<and>
   \<not> never_raises (map (mask_outliers \<circ> raw_evi) (reset_index raw_gap)) \<and>
   length (clean_time_series never_raises (reset_index raw_gap)) < 12 \<and>
   length (smooth_time_series no_savgol (clean_time_series never_raises (reset_index raw_gap)))
     \<le> length (reset_index raw_gap) \<and>
   sorted (map raw_date (smooth_time_series no_savgol (clean_time_series never_raises (reset_index raw_gap)))) \<and>
   list_all (\<lambda>r. in_range (raw_ndvi r) \<and> in_range (raw_evi r) \<and> notna (raw_ndvi r) \<and> notna (raw_evi r) \<and>
                raw_ndvi_smooth r = raw_ndvi r \<and> raw_evi_smooth r = raw_evi r)
     (smooth_time_series no_savgol (clean_time_series never_raises (reset_index raw_gap))) \<and>
   rows_of (smooth_time_series no_savgol (clean_time_series never_raises (reset_index raw_gap))) = Some df_gap"
proof -
  have h: "sorted (map raw_date (reset_index raw_gap))"
    by (simp add: reset_gap)
  have n: "\<not> never_raises (map (mask_outliers \<circ> raw_ndvi) (reset_index raw_gap)) \<and>
      \<not> never_raises (map (mask_outliers \<circ> raw_evi) (reset_index raw_gap))"
    by (simp add: never_raises_def)
  have l: "length (clean_time_series never_raises (reset_index raw_gap)) < 12"
    by (simp add: clean_gap clean_gap_frame_def)
  have s: "rows_of (smooth_time_series no_savgol (clean_time_series never_raises (reset_index raw_gap)))
      = Some df_gap"
    by (simp add: clean_gap smooth_gap)
  from preprocess_invariants [of no_savgol never_raises "reset_index raw_gap"] h n l s
  show ?thesis by (simp add: list_all_iff)
qed

text \<open>C6 at a failing input: cleaning the seven observations of \<open>raw_gap\<close> drops the row
  with label 4, the whole cleaned series is one run above the thresholds, its maximal smoothed
  NDVI 0.9 is on day 80, and the candidate reports the peak on day 96 with NDVI 0.6.\<close>

theorem threshold_peak_offset_bug:
  "rows_of (smooth_time_series sg (clean_time_series never_raises (reset_index raw_gap))) = Some df_gap \<and>
   rows_of (smooth_time_series sg (clean_time_series object_column_raises (reset_index raw_gap)))
     = Some df_gap \<and>
   find_continuous_periods (bloom_mask df_gap) = [(0, 5)] \<and>
   map ndvi_smooth df_gap = [5/10, 58/100, 66/100, 74/100, 9/10, 6/10] \<and>
   map date df_gap = [0, 16, 32, 48, 80, 96] \<and>
   map (\<lambda>b. (peak_date b, peak_ndvi b)) (detect_threshold_blooms df_gap) = [(96, 6/10)]"
  by (simp add: clean_gap smooth_gap periods_gap detect_threshold_blooms_def threshold_gap)
     (simp add: df_gap_def mk_row_def)

section \<open>Properties of the detectors\<close>

lemma local_maxima_constant:
  assumes "\<forall>v \<in> set x. v = c"
  shows "local_maxima_1d x = []"
proof -
  have "\<not> x ! (i - 1) < x ! i" if "i \<in> set [1..<length x]" for i
  proof -
    from that have "i - 1 < length x" "i < length x" by auto
    then have "x ! (i - 1) = c" "x ! i = c" using assms by auto
    then show ?thesis by simp
  qed
  then show ?thesis
    unfolding local_maxima_1d_def Let_def by (simp del: upt_Suc set_upt)
qed

lemma peak_blooms_constant:
  assumes "\<forall>r \<in> set df. ndvi_smooth r = c"
  shows "peak_blooms_try conditions df = Inr []"
proof -
  have "local_maxima_1d (map ndvi_smooth df) = []"
    by (rule local_maxima_constant [of _ c]) (use assms in auto)
  then show ?thesis by (simp add: peak_blooms_try_def find_peaks_def)
qed

lemma period_fold_all_False:
  "\<forall>f \<in> set fs. \<not> f \<Longrightarrow> foldl period_step (ps, None) (enumerate k fs) = (ps, None)"
  by (induction fs arbitrary: k) (auto simp: period_step_def)

lemma find_periods_all_False: "\<forall>f \<in> set fs. \<not> f \<Longrightarrow> find_continuous_periods fs = []"
  by (simp add: find_continuous_periods_def period_fold_all_False)

lemma threshold_blooms_below:
  assumes "\<forall>r \<in> set df. ndvi_smooth r \<le> ndvi_bloom_threshold \<or> evi_smooth r \<le> evi_bloom_threshold"
  shows "threshold_blooms_try df = Inr []"
proof -
  have "\<forall>f \<in> set (bloom_mask df). \<not> f"
    using assms by (auto simp: bloom_mask_def)
  then show ?thesis
    by (simp add: threshold_blooms_try_def find_periods_all_False)
qed

lemma change_point_loop_no_decrease: "change_point_loop df [] ss blooms = Inr blooms"
  by (induction ss) simp_all

lemma pd_std_nonneg: "pd_std vs = Some s \<Longrightarrow> 0 \<le> s"
  by (auto simp: pd_std_def Let_def split: if_splits intro!: sum_list_nonneg divide_nonneg_nonneg)

lemma set_diff_zip:
  "(r, Some x) \<in> set (zip df (diff (map ndvi_smooth df))) \<Longrightarrow>
   x \<in> set (present (diff (map ndvi_smooth df)))"
  by (auto simp: present_def dest!: set_zip_rightD intro!: bexI [of _ "Some x"])

lemma diff_constant:
  assumes "\<forall>v \<in> set xs. v = c"
  shows "\<forall>x \<in> set (present (diff xs)). x = 0"
proof (cases xs)
  case Nil
  then show ?thesis by (simp add: diff_def present_def)
next
  case (Cons y rest)
  have h: "a = c \<and> b = c" if "(a, b) \<in> set (zip xs rest)" for a b
  proof -
    have "a \<in> set xs" using that by (rule set_zip_leftD)
    moreover have "b \<in> set xs" using that [THEN set_zip_rightD] Cons by simp
    ultimately show ?thesis using assms by blast
  qed
  have "\<forall>p \<in> set (zip xs rest). snd p - fst p = 0"
  proof
    fix p assume "p \<in> set (zip xs rest)"
    then have "fst p = c \<and> snd p = c" using h [of "fst p" "snd p"] by simp
    then show "snd p - fst p = 0" by simp
  qed
  then show ?thesis using Cons
    by (auto simp: diff_def present_def split: option.splits)
qed

lemma increase_points_constant:
  assumes "\<forall>r \<in> set df. ndvi_smooth r = c"
  shows "increase_points df = []"
proof -
  let ?d = "diff (map ndvi_smooth df)"
  have z: "\<forall>x \<in> set (present ?d). x = 0"
    by (rule diff_constant [of _ c]) (use assms in auto)
  have "\<not> nan_gt d (map_option (\<lambda>s. s * (15 / 10)) (pd_std ?d))" if "(r, d) \<in> set (zip df ?d)" for r d
  proof (cases d)
    case None
    then show ?thesis by (simp add: nan_gt_def)
  next
    case (Some x)
    with that z have "x = 0" using set_diff_zip by blast
    then show ?thesis using Some pd_std_nonneg [of ?d]
      by (cases "pd_std ?d") (auto simp: nan_gt_def)
  qed
  then show ?thesis
    by (auto simp: increase_points_def Let_def filter_empty_conv)
qed

lemma std_zero_all_equal:
  assumes "pd_std vs = Some 0"
  shows "\<forall>x \<in> set (present vs). x = mean (present vs)"
proof -
  let ?xs = "present vs"
  from assms have n: "2 \<le> length ?xs"
    and s: "sqrt (sum_list (map (\<lambda>x. (x - mean ?xs)\<^sup>2) ?xs) / real (length ?xs - 1)) = 0"
    by (auto simp: pd_std_def Let_def split: if_splits)
  from s n have "sum_list (map (\<lambda>x. (x - mean ?xs)\<^sup>2) ?xs) = 0"
    by simp
  moreover have "\<And>y. y \<in> set (map (\<lambda>x. (x - mean ?xs)\<^sup>2) ?xs) \<Longrightarrow> 0 \<le> y"
    by auto
  ultimately have "\<forall>y \<in> set (map (\<lambda>x. (x - mean ?xs)\<^sup>2) ?xs). y = 0"
    by (simp only: sum_list_nonneg_eq_0_iff)
  then show ?thesis by simp
qed

lemma change_point_std_zero:
  assumes "pd_std (diff (map ndvi_smooth df)) = Some 0"
  shows "change_point_blooms_try df = Inr []"
proof -
  let ?d = "diff (map ndvi_smooth df)"
  let ?m = "mean (present ?d)"
  have eq: "x = ?m" if "(r, Some x) \<in> set (zip df ?d)" for r x
    using std_zero_all_equal [OF assms] set_diff_zip [OF that] by blast
  show ?thesis
  proof (cases "0 < ?m")
    case True
    have "\<not> nan_lt d (Some 0)" if "(r, d) \<in> set (zip df ?d)" for r d
      using that eq True by (cases d) (auto simp: nan_lt_def)
    then have "decrease_points df = []"
      using assms by (auto simp: decrease_points_def Let_def filter_empty_conv)
    then show ?thesis
      by (simp add: change_point_blooms_try_def change_point_loop_no_decrease)
  next
    case False
    have "\<not> nan_gt d (Some 0)" if "(r, d) \<in> set (zip df ?d)" for r d
      using that eq False by (cases d) (auto simp: nan_gt_def)
    then have "increase_points df = []"
      using assms by (auto simp: increase_points_def Let_def filter_empty_conv)
    then show ?thesis
      by (simp add: change_point_blooms_try_def)
  qed
qed

text \<open>C7 (as amended): on a series whose smoothed NDVI is constant the peak detector and the
  change-point detector return the empty list without raising; so does the threshold detector
  when at every sample the smoothed NDVI is at most 0.4 or the smoothed EVI at most 0.3 (as
  with NDVI 0.1 and EVI 0.05); and whenever the standard deviation of the first differences
  of the smoothed NDVI is 0, the change-point detector yields no candidates.\<close>

theorem constant_series_no_candidates:
  "((\<forall>r \<in> set df. ndvi_smooth r = c) \<longrightarrow>
      peak_blooms_try conditions df = Inr [] \<and> detect_peak_blooms conditions df = [] \<and>
      change_point_blooms_try df = Inr [] \<and> detect_change_point_blooms df = []) \<and>
   ((\<forall>r \<in> set df. ndvi_smooth r \<le> ndvi_bloom_threshold \<or> evi_smooth r \<le> evi_bloom_threshold) \<longrightarrow>
      threshold_blooms_try df = Inr [] \<and> detect_threshold_blooms df = []) \<and>
   (pd_std (diff (map ndvi_smooth df)) = Some 0 \<longrightarrow>
      change_point_blooms_try df = Inr [] \<and> detect_change_point_blooms df = [])"
proof -
  have 1: "peak_blooms_try conditions df = Inr [] \<and> detect_peak_blooms conditions df = [] \<and>
      change_point_blooms_try df = Inr [] \<and> detect_change_point_blooms df = []"
    if a: "\<forall>r \<in> set df. ndvi_smooth r = c"
    using peak_blooms_constant [OF a, of conditions] increase_points_constant [OF a]
    by (simp add: detect_peak_blooms_def detect_change_point_blooms_def change_point_blooms_try_def)
  have 2: "threshold_blooms_try df = Inr [] \<and> detect_threshold_blooms df = []"
    if "\<forall>r \<in> set df. ndvi_smooth r \<le> ndvi_bloom_threshold \<or> evi_smooth r \<le> evi_bloom_threshold"
    using threshold_blooms_below [OF that] by (simp add: detect_threshold_blooms_def)
  have 3: "change_point_blooms_try df = Inr [] \<and> detect_change_point_blooms df = []"
    if "pd_std (diff (map ndvi_smooth df)) = Some 0"
    using change_point_std_zero [OF that] by (simp add: detect_change_point_blooms_def)
  from 1 2 3 show ?thesis by blast
qed

lemma const_df_3: "const_df 3 c e = [mk_row 0 0 c e, mk_row 1 16 c e, mk_row 2 32 c e]"
  by (simp add: const_df_def upt_rec numeral_2_eq_2 numeral_3_eq_3)

lemma const_df_4: "const_df 4 c e = [mk_row 0 0 c e, mk_row 1 16 c e, mk_row 2 32 c e, mk_row 3 48 c e]"
  by (simp add: const_df_def upt_rec numeral_2_eq_2 numeral_3_eq_3)

text \<open>C7 as stated fails: on the constant series with NDVI 0.5 and EVI 0.5 at three samples
  the threshold detector returns a candidate.\<close>

theorem constant_series_threshold_counterexample:
  "map ndvi_smooth (const_df 3 (5/10) (5/10)) = [5/10, 5/10, 5/10] \<and>
   map evi_smooth (const_df 3 (5/10) (5/10)) = [5/10, 5/10, 5/10] \<and>
   detect_threshold_blooms (const_df 3 (5/10) (5/10)) =
     [\<lparr>start_date = 0, peak_date = 0, end_date = 32, duration_days = 32,
       peak_ndvi = 5/10, peak_evi = 5/10, bloom_intensity = 5/10,
       confidence_score = 7/10, detection_method = ''threshold''\<rparr>]"
  by (simp add: const_df_3 mk_row_def detect_threshold_blooms_def threshold_blooms_try_def
      find_continuous_periods_def period_step_def bloom_mask_def ndvi_bloom_threshold_def
      evi_bloom_threshold_def threshold_bloom_def iloc_def iloc_slice_def idxmax_def argmax_def
      make_bloom_def)

lemma std_const_4: "pd_std (diff (map ndvi_smooth (const_df 4 c e))) = Some 0"
  by (simp add: const_df_4 mk_row_def diff_def pd_std_def present_def mean_def)

text \<open>C7 (as amended) at the constant series with NDVI 0.1 and EVI 0.05.\<close>

theorem constant_series_no_candidates_witness:
  "map ndvi_smooth (const_df 4 (1/10) (5/100)) = [1/10, 1/10, 1/10, 1/10] \<and>
   map evi_smooth (const_df 4 (1/10) (5/100)) = [5/100, 5/100, 5/100, 5/100] \<and>
   pd_std (diff (map ndvi_smooth (const_df 4 (1/10) (5/100)))) = Some 0 \<and>
   threshold_blooms_try (const_df 4 (1/10) (5/100)) = Inr [] \<and>
   peak_blooms_try (\<lambda>x i. True) (const_df 4 (1/10) (5/100)) = Inr [] \<and>
   change_point_blooms_try (const_df 4 (1/10) (5/100)) = Inr []"
proof -
  have c: "\<forall>r \<in> set (const_df 4 (1/10) (5/100)). ndvi_smooth r = 1/10"
    by (simp add: const_df_4 mk_row_def)
  have b: "\<forall>r \<in> set (const_df 4 (1/10) (5/100)).
      ndvi_smooth r \<le> ndvi_bloom_threshold \<or> evi_smooth r \<le> evi_bloom_threshold"
    by (simp add: const_df_4 mk_row_def ndvi_bloom_threshold_def)
  have m: "map ndvi_smooth (const_df 4 (1/10) (5/100)) = [1/10, 1/10, 1/10, 1/10] \<and>
   map evi_smooth (const_df 4 (1/10) (5/100)) = [5/100, 5/100, 5/100, 5/100]"
    by (simp add: const_df_4 mk_row_def)
  from constant_series_no_candidates [of "const_df 4 (1/10) (5/100)" "1/10" "\<lambda>x i. True"] c b m
    std_const_4 [of "1/10" "5/100"]
  show ?thesis by blast
qed

lemma temporal_coverage_bounds: "0 \<le> temporal_coverage df \<and> temporal_coverage df \<le> 1"
  by (auto simp: temporal_coverage_def Let_def)

lemma mean4_bounds:
  fixes a b c d :: real
  assumes "0 \<le> a \<and> a \<le> 1" "0 \<le> b \<and> b \<le> 1" "0 \<le> c \<and> c \<le> 1" "0 \<le> d \<and> d \<le> 1"
  shows "0 \<le> (a + b + c + d) / 4 \<and> (a + b + c + d) / 4 \<le> 1"
  using assms by simp

lemma gap_factor_bounds:
  "0 \<le> (if length df > 0 then max 0 (1 - real (gap_count df) / real (length df)) else 0) \<and>
   (if length df > 0 then max 0 (1 - real (gap_count df) / real (length df)) else 0) \<le> (1::real)"
  by simp

lemma std_factor_bounds:
  "0 \<le> (case pd_std vs of None \<Rightarrow> 1 | Some s \<Rightarrow> min 1 (s / (2 / 10))) \<and>
   (case pd_std vs of None \<Rightarrow> 1 | Some s \<Rightarrow> min 1 (s / (2 / 10))) \<le> (1::real)"
  using pd_std_nonneg [of vs] by (cases "pd_std vs") auto

lemma rating_cases:
  "(get_quality_rating s = ''excellent'' \<longleftrightarrow> s \<ge> 8 / 10) \<and>
   (get_quality_rating s = ''good'' \<longleftrightarrow> 6 / 10 \<le> s \<and> s < 8 / 10) \<and>
   (get_quality_rating s = ''fair'' \<longleftrightarrow> 4 / 10 \<le> s \<and> s < 6 / 10) \<and>
   (get_quality_rating s = ''poor'' \<longleftrightarrow> s < 4 / 10)"
  by (auto simp: get_quality_rating_def)

text \<open>C8: the overall quality score is the mean of the four factors, each of them and the
  score lie in \<open>[0, 1]\<close>, and the rating is excellent from 0.8, good from 0.6, fair from 0.4
  and poor below.\<close>

theorem quality_score_and_rating:
  "overall_quality_score (assess_data_quality df raw_count) =
     (min 1 (real (length df) / 20)
      + temporal_completeness (assess_data_quality df raw_count)
      + (if length df > 0
         then max 0 (1 - real (large_gap_count (assess_data_quality df raw_count)) / real (length df))
         else 0)
      + (case pd_std (map (Some \<circ> ndvi_smooth) df) of
           None \<Rightarrow> 1 | Some s \<Rightarrow> min 1 (s / (2 / 10)))) / 4 \<and>
   list_all (\<lambda>f. 0 \<le> f \<and> f \<le> 1) (quality_factors df) \<and>
   0 \<le> overall_quality_score (assess_data_quality df raw_count) \<and>
   overall_quality_score (assess_data_quality df raw_count) \<le> 1 \<and>
   (quality_rating (assess_data_quality df raw_count) = ''excellent'' \<longleftrightarrow>
      overall_quality_score (assess_data_quality df raw_count) \<ge> 8 / 10) \<and>
   (quality_rating (assess_data_quality df raw_count) = ''good'' \<longleftrightarrow>
      6 / 10 \<le> overall_quality_score (assess_data_quality df raw_count) \<and>
      overall_quality_score (assess_data_quality df raw_count) < 8 / 10) \<and>
   (quality_rating (assess_data_quality df raw_count) = ''fair'' \<longleftrightarrow>
      4 / 10 \<le> overall_quality_score (assess_data_quality df raw_count) \<and>
      overall_quality_score (assess_data_quality df raw_count) < 6 / 10) \<and>
   (quality_rating (assess_data_quality df raw_count) = ''poor'' \<longleftrightarrow>
      overall_quality_score (assess_data_quality df raw_count) < 4 / 10)"
proof -
  let ?q = "assess_data_quality df raw_count"
  let ?f1 = "min 1 (real (length df) / 20)"
  let ?f2 = "temporal_coverage df"
  let ?f3 = "if length df > 0 then max 0 (1 - real (gap_count df) / real (length df)) else 0"
  let ?f4 = "case pd_std (map (Some \<circ> ndvi_smooth) df) of None \<Rightarrow> 1 | Some s \<Rightarrow> min 1 (s / (2 / 10))"
  have score: "overall_quality_score ?q = (?f1 + ?f2 + ?f3 + ?f4) / 4"
    by (simp add: assess_data_quality_def Let_def quality_factors_def mean_def)
  have fields: "temporal_completeness ?q = ?f2" "large_gap_count ?q = gap_count df"
    "quality_rating ?q = get_quality_rating (overall_quality_score ?q)"
    by (simp_all add: assess_data_quality_def Let_def)
  have b1: "0 \<le> ?f1 \<and> ?f1 \<le> 1" by simp
  note b2 = temporal_coverage_bounds [of df]
  note b3 = gap_factor_bounds [of df]
  note b4 = std_factor_bounds [of "map (Some \<circ> ndvi_smooth) df"]
  have all: "list_all (\<lambda>f. 0 \<le> f \<and> f \<le> 1) (quality_factors df)"
    unfolding quality_factors_def using b1 b2 b3 b4 by simp
  have s01: "0 \<le> overall_quality_score ?q \<and> overall_quality_score ?q \<le> 1"
    unfolding score by (rule mean4_bounds [OF b1 b2 b3 b4])
  show ?thesis
    using score all s01 rating_cases [of "overall_quality_score ?q"]
    by (simp only: fields)
qed

section \<open>Properties of the phenology extractor\<close>

lemma takeWhile_length_less:
  "\<exists>x \<in> set xs. \<not> P x \<Longrightarrow> length (takeWhile P xs) < length xs"
  by (induction xs) auto

lemma takeWhile_nth_holds:
  assumes "j < length (takeWhile P xs)"
  shows "P (xs ! j)"
proof -
  have "takeWhile P xs ! j \<in> set (takeWhile P xs)"
    using assms by (rule nth_mem)
  then have "P (takeWhile P xs ! j)"
    by (rule set_takeWhileD [THEN conjunct2])
  then show ?thesis
    by (simp only: takeWhile_nth [OF assms])
qed

lemma argmax_first:
  assumes "xs \<noteq> []"
  shows "argmax xs < length xs" and "xs ! argmax xs = Max (set xs)"
    and "\<forall>j < argmax xs. xs ! j < Max (set xs)"
proof -
  let ?P = "\<lambda>v. v \<noteq> Max (set xs)"
  have "Max (set xs) \<in> set xs" using assms by (intro Max_in) auto
  then have "\<exists>x \<in> set xs. \<not> ?P x" by blast
  then show l: "argmax xs < length xs"
    unfolding argmax_def by (rule takeWhile_length_less)
  then show "xs ! argmax xs = Max (set xs)"
    unfolding argmax_def using nth_length_takeWhile [of ?P xs] by blast
  show "\<forall>j < argmax xs. xs ! j < Max (set xs)"
  proof (intro allI impI)
    fix j assume j: "j < argmax xs"
    then have "?P (xs ! j)"
      unfolding argmax_def by (rule takeWhile_nth_holds)
    moreover have "xs ! j \<le> Max (set xs)"
      using j l by (intro Max_ge) auto
    ultimately show "xs ! j < Max (set xs)" by simp
  qed
qed

lemma first_index_Some:
  assumes "first_index P xs = Some i"
  shows "i < length xs" and "P (xs ! i)" and "\<forall>j < i. \<not> P (xs ! j)"
proof -
  from assms have ex: "\<exists>x \<in> set xs. \<not> \<not> P x" and i: "i = length (takeWhile (\<lambda>x. \<not> P x) xs)"
    by (auto simp: first_index_def list_ex_iff split: if_splits)
  from ex show l: "i < length xs"
    unfolding i by (rule takeWhile_length_less)
  then show "P (xs ! i)"
    unfolding i using nth_length_takeWhile [of "\<lambda>x. \<not> P x" xs] by blast
  show "\<forall>j < i. \<not> P (xs ! j)"
    unfolding i using takeWhile_nth_holds [of _ "\<lambda>x. \<not> P x" xs] by blast
qed

lemma first_index_le:
  assumes "k < length xs" "P (xs ! k)"
  shows "\<exists>i \<le> k. first_index P xs = Some i"
proof -
  have "list_ex P xs" using assms by (auto simp: list_ex_iff)
  then obtain i where i: "first_index P xs = Some i"
    by (simp add: first_index_def)
  have "i \<le> k"
  proof (rule ccontr)
    assume "\<not> i \<le> k"
    then have "\<not> P (xs ! k)" using first_index_Some(3) [OF i] by simp
    then show False using assms by simp
  qed
  then show ?thesis using i by blast
qed

lemma find_eos_idx_range:
  assumes "pos_idx < length xs"
  shows "pos_idx \<le> find_eos_idx xs pos_idx v \<and> find_eos_idx xs pos_idx v < length xs"
proof (cases "first_index (\<lambda>x. x < v) (drop pos_idx xs)")
  case None
  then show ?thesis using assms by (simp add: find_eos_idx_def; arith)
next
  case (Some k)
  from first_index_Some(1) [OF Some] assms show ?thesis
    using Some by (simp add: find_eos_idx_def)
qed

lemma sos_threshold_le_max:
  fixes lo hi :: real
  assumes "lo \<le> hi"
  shows "lo + (hi - lo) * sos_threshold \<le> hi"
proof -
  have "(hi - lo) * sos_threshold \<le> (hi - lo) * 1"
    using assms by (intro mult_left_mono) (simp_all add: sos_threshold_def)
  then show ?thesis by simp
qed

text \<open>On Python \<open>datetime\<close> elements the method does what C4 says: for a series with a sample
  at least, sorted by date, and the statistics of that series, the peak of season is the first
  position of the maximal smoothed NDVI, start and end of season are defined, and their dates
  enclose the date of the peak.\<close>

lemma phenology_phases_on_datetimes:
  assumes ne: "df \<noteq> []" and srt: "sorted (map date df)"
  shows "\<exists>ph s e. detect_phenology_phases (datetime_ops yday) df (calculate_basic_statistics df) = Some ph \<and>
     phase_date (peak_of_season ph) = date (df ! argmax (map ndvi_smooth df)) \<and>
     ndvi_value (peak_of_season ph) = Max (set (map ndvi_smooth df)) \<and>
     start_of_season ph = Some s \<and> end_of_season ph = Some e \<and>
     phase_date s \<le> phase_date (peak_of_season ph) \<and>
     phase_date (peak_of_season ph) \<le> phase_date e"
proof -
  let ?xs = "map ndvi_smooth df"
  let ?lo = "Min (set ?xs)" and ?hi = "Max (set ?xs)"
  let ?pos = "argmax ?xs"
  let ?sosv = "?lo + (?hi - ?lo) * sos_threshold"
  let ?eos = "find_eos_idx ?xs ?pos (?lo + (?hi - ?lo) * eos_threshold)"
  have xs: "?xs \<noteq> []" using ne by simp
  note am = argmax_first [OF xs]
  have lohi: "?lo \<le> ?hi" using xs by (intro Min_le_iff [THEN iffD2]) (auto intro: exI [of _ "hd df"])
  have "?xs ! ?pos \<ge> ?sosv"
    using sos_threshold_le_max [OF lohi] am(2) by simp
  from first_index_le [of ?pos ?xs "\<lambda>v. v \<ge> ?sosv", OF am(1) this]
  obtain i where i: "i \<le> ?pos" "find_sos_idx ?xs ?sosv = Some i"
    by (auto simp: find_sos_idx_def)
  note er = find_eos_idx_range [OF am(1), of "?lo + (?hi - ?lo) * eos_threshold"]
  have len: "?pos < length df" "i < length df" "?eos < length df"
    using am(1) i(1) er by simp_all
  have d1: "date (df ! i) \<le> date (df ! ?pos)"
    using sorted_nth_mono [OF srt, of i ?pos] i(1) len by simp
  have d2: "date (df ! ?pos) \<le> date (df ! ?eos)"
    using sorted_nth_mono [OF srt, of ?pos ?eos] er len by simp
  have "detect_phenology_phases (datetime_ops yday) df (calculate_basic_statistics df) =
    Some \<lparr> start_of_season = Some \<lparr> phase_date = date (df ! i), day_of_year = yday (date (df ! i)),
                                     ndvi_value = ndvi_smooth (df ! i) \<rparr>,
           peak_of_season = \<lparr> phase_date = date (df ! ?pos), day_of_year = yday (date (df ! ?pos)),
                                     ndvi_value = ndvi_smooth (df ! ?pos) \<rparr>,
           end_of_season = Some \<lparr> phase_date = date (df ! ?eos), day_of_year = yday (date (df ! ?eos)),
                                     ndvi_value = ndvi_smooth (df ! ?eos) \<rparr>,
           growing_season_length = Some (date (df ! ?eos) - date (df ! i)),
           green_up_duration = Some (date (df ! ?pos) - date (df ! i)),
           senescence_duration = Some (date (df ! ?eos) - date (df ! ?pos)) \<rparr>"
  proof -
    have st: "calculate_basic_statistics df = Some (?lo, ?hi - ?lo)"
      using ne by (simp add: calculate_basic_statistics_def)
    have pe: "phase_entry (datetime_ops yday) df k =
        Inr \<lparr> phase_date = date (df ! k), day_of_year = yday (date (df ! k)),
              ndvi_value = ndvi_smooth (df ! k) \<rparr>" for k
      by (simp add: phase_entry_def datetime_ops_def)
    have dy: "days (datetime_ops yday) a b = Inr (a - b)" for a b
      by (simp add: datetime_ops_def)
    show ?thesis
      unfolding detect_phenology_phases_def phenology_phases_try_def st
      using ne by (simp add: Let_def i(2) [simplified] pe dy)
  qed
  moreover have "ndvi_smooth (df ! ?pos) = ?hi"
    using am(2) len(1) by simp
  ultimately show ?thesis using d1 d2 by simp
qed

lemma phenology_phases_on_datetime64:
  "detect_phenology_phases datetime64_ops df (calculate_basic_statistics df) = None"
  by (cases "find_sos_idx (map ndvi_smooth df)
        (Min (set (map ndvi_smooth df)) +
         (Max (set (map ndvi_smooth df)) - Min (set (map ndvi_smooth df))) * sos_threshold)")
     (simp_all add: detect_phenology_phases_def phenology_phases_try_def calculate_basic_statistics_def
        Let_def phase_entry_def datetime64_ops_def)

lemma season_stats: "calculate_basic_statistics season_df = Some (2/10, 6/10)"
  by (simp add: calculate_basic_statistics_def season_df_def mk_row_def)

text \<open>C4 at a failing input: on the seven samples of \<open>season_df\<close>, with the statistics of that
  series, the method returns \<open>{}\<close>, so no peak of season is reported; the first position of
  the maximal smoothed NDVI is 3.\<close>

theorem phenology_phases_datetime64_bug:
  "calculate_basic_statistics season_df = Some (2/10, 6/10) \<and>
   argmax (map ndvi_smooth season_df) = 3 \<and>
   phenology_phases_try datetime64_ops season_df (calculate_basic_statistics season_df) =
     Inl AttributeError \<and>
   detect_phenology_phases datetime64_ops season_df (calculate_basic_statistics season_df) = None"
  unfolding season_stats
  by (simp add: detect_phenology_phases_def phenology_phases_try_def Let_def phase_entry_def
      datetime64_ops_def find_sos_idx_def first_index_def sos_threshold_def argmax_def
      season_df_def mk_row_def)

section \<open>The threshold detector where the labels are positions\<close>

lemma period_step_inv:
  assumes "periods_inv m k s" "k < length m"
  shows "periods_inv m (Suc k) (period_step s (k, m ! k))"
proof -
  obtain ps st where s: "s = (ps, st)" by (cases s)
  show ?thesis
  proof (cases st)
    case None
    then show ?thesis using assms s
      by (auto simp: periods_inv_def period_step_def less_Suc_eq)
  next
    case (Some a)
    show ?thesis
    proof (cases "m ! k")
      case True
      then show ?thesis using assms s Some
        by (auto simp: periods_inv_def period_step_def less_Suc_eq)
    next
      case False
      have "is_run m a (k - 1)"
        using assms s Some False unfolding periods_inv_def is_run_def
        by (auto simp: less_Suc_eq_le)
      then show ?thesis using assms s Some False
        by (auto simp: periods_inv_def period_step_def)
    qed
  qed
qed

lemma period_fold_inv:
  "periods_inv m k s \<Longrightarrow> fs = drop k m \<Longrightarrow> k \<le> length m \<Longrightarrow>
   periods_inv m (length m) (foldl period_step s (enumerate k fs))"
proof (induction fs arbitrary: k s)
  case Nil
  then have "k = length m" by simp
  then show ?case using Nil by simp
next
  case (Cons x fs)
  from Cons.prems(2) have k: "k < length m"
    by (metis drop_all list.distinct(1) not_le)
  from Cons.prems(2) k have x: "x = m ! k" and fs: "fs = drop (Suc k) m"
    by (simp_all add: Cons_nth_drop_Suc [symmetric])
  have "periods_inv m (Suc k) (period_step s (k, x))"
    unfolding x by (rule period_step_inv [OF Cons.prems(1) k])
  from Cons.IH [OF this fs] k show ?case by simp
qed

lemma find_continuous_periods_runs:
  "\<forall>p \<in> set (find_continuous_periods m). is_run m (fst p) (snd p)"
proof -
  have "periods_inv m 0 ([], None)" by (simp add: periods_inv_def)
  from period_fold_inv [OF this, of m]
  have inv: "periods_inv m (length m) (foldl period_step ([], None) (enumerate 0 m))" by simp
  obtain ps st where f: "foldl period_step ([], None) (enumerate 0 m) = (ps, st)"
    by (cases "foldl period_step ([], None) (enumerate 0 m)")
  show ?thesis
  proof (cases st)
    case None
    then show ?thesis using inv f
      by (simp add: find_continuous_periods_def periods_inv_def)
  next
    case (Some a)
    from inv f Some have a: "a < length m" "\<forall>i. a \<le> i \<and> i < length m \<longrightarrow> m ! i"
      "a = 0 \<or> \<not> m ! (a - 1)"
      by (simp_all add: periods_inv_def)
    have "\<forall>i. a \<le> i \<and> i \<le> length m - 1 \<longrightarrow> m ! i"
    proof (intro allI impI)
      fix i assume "a \<le> i \<and> i \<le> length m - 1"
      then have "a \<le> i \<and> i < length m" using a(1) by arith
      then show "m ! i" using a(2) by blast
    qed
    then have "is_run m a (length m - 1)"
      using a unfolding is_run_def by (simp; arith)
    then show ?thesis using inv f Some
      by (simp add: find_continuous_periods_def periods_inv_def)
  qed
qed

lemma iloc_in_range: "i < length df \<Longrightarrow> iloc df (int i) = Inr (df ! i)"
  by (simp add: iloc_def)

lemma threshold_bloom_positions:
  assumes lab: "\<forall>i < length df. label (df ! i) = l0 + i"
    and se: "s \<le> e" "e < length df"
  shows "threshold_bloom df s e = Inr (run_bloom df s e)"
    and "s + argmax (map ndvi_smooth (iloc_slice df s (e + 1))) \<le> e"
proof -
  let ?bd = "iloc_slice df s (e + 1)"
  let ?a = "argmax (map ndvi_smooth ?bd)"
  have len: "length ?bd = e + 1 - s" using se by (simp add: iloc_slice_def)
  then have ne: "?bd \<noteq> []" using se by auto
  have a: "?a < length ?bd"
    using argmax_first(1) [of "map ndvi_smooth ?bd"] ne by simp
  then show pe: "s + ?a \<le> e" using len se by simp
  have nth: "?bd ! k = df ! (s + k)" if "k < length ?bd" for k
    using that se by (simp add: iloc_slice_def)
  have l1: "label (?bd ! ?a) = l0 + (s + ?a)"
    using nth [OF a] lab pe se by simp
  have l2: "label (hd ?bd) = l0 + s"
    using nth [of 0] ne lab se by (simp add: hd_conv_nth)
  have idx: "idxmax ndvi_smooth label ?bd = Inr (l0 + (s + ?a))"
    using ne l1 by (simp add: idxmax_def)
  have pk: "int s + int (l0 + (s + ?a)) - int (l0 + s) = int (s + ?a)"
    by simp
  have i1: "iloc df (int s) = Inr (df ! s)" using se by (intro iloc_in_range) simp
  have i2: "iloc df (int (s + ?a)) = Inr (df ! (s + ?a))" using se pe by (intro iloc_in_range) simp
  have i3: "iloc df (int e) = Inr (df ! e)" using se by (intro iloc_in_range) simp
  show "threshold_bloom df s e = Inr (run_bloom df s e)"
    by (simp only: threshold_bloom_def run_bloom_def Let_def idx sum.case l2 pk i1 i2 i3)
qed

lemma threshold_loop_positions:
  assumes lab: "\<forall>i < length df. label (df ! i) = l0 + i"
  shows "\<forall>p \<in> set ps. fst p \<le> snd p \<and> snd p < length df \<Longrightarrow>
    threshold_loop df ps blooms =
      Inr (blooms @ map (\<lambda>p. run_bloom df (fst p) (snd p)) (filter (\<lambda>p. fst p + 2 \<le> snd p) ps))"
proof (induction ps arbitrary: blooms)
  case Nil
  then show ?case by simp
next
  case (Cons p ps)
  obtain s e where p: "p = (s, e)" by (cases p)
  from Cons.prems p have se: "s \<le> e" "e < length df" by simp_all
  have ih: "threshold_loop df ps bl =
      Inr (bl @ map (\<lambda>p. run_bloom df (fst p) (snd p)) (filter (\<lambda>p. fst p + 2 \<le> snd p) ps))" for bl
    using Cons.IH [of bl] Cons.prems by simp
  show ?case
  proof (cases "s + 2 \<le> e")
    case True
    then show ?thesis
      using threshold_bloom_positions(1) [OF lab se] ih p by simp
  next
    case False
    then show ?thesis using ih p by simp
  qed
qed

text \<open>Where the index labels are the positions shifted by a constant (no row was dropped
  between two rows that were kept) \<open>_detect_threshold_blooms\<close> does what C6 says: it does
  not raise; its candidates are those of the maximal runs of at least three samples above
  both thresholds, in order; each has the run's bounds as start and end, its peak at the
  first position of the maximal smoothed NDVI within the run, the mean of the peak sample's
  smoothed NDVI and EVI as intensity, and confidence 0.7.\<close>

lemma threshold_blooms_on_positions:
  assumes lab: "\<forall>i < length df. label (df ! i) = l0 + i"
  shows "threshold_blooms_try df =
      Inr (map (\<lambda>p. run_bloom df (fst p) (snd p))
             (filter (\<lambda>p. fst p + 2 \<le> snd p) (find_continuous_periods (bloom_mask df))))"
    and "\<forall>p \<in> set (find_continuous_periods (bloom_mask df)). is_run (bloom_mask df) (fst p) (snd p)"
    and "is_run (bloom_mask df) s e \<Longrightarrow>
      (let p = s + argmax (map ndvi_smooth (iloc_slice df s (e + 1))) in
       s \<le> p \<and> p \<le> e \<and>
       ndvi_smooth (df ! p) = Max (set (map ndvi_smooth (iloc_slice df s (e + 1)))) \<and>
       (\<forall>i. s \<le> i \<and> i < p \<longrightarrow> ndvi_smooth (df ! i) < ndvi_smooth (df ! p)) \<and>
       start_date (run_bloom df s e) = date (df ! s) \<and>
       end_date (run_bloom df s e) = date (df ! e) \<and>
       peak_date (run_bloom df s e) = date (df ! p) \<and>
       peak_ndvi (run_bloom df s e) = ndvi_smooth (df ! p) \<and>
       bloom_intensity (run_bloom df s e) = (ndvi_smooth (df ! p) + evi_smooth (df ! p)) / 2 \<and>
       confidence_score (run_bloom df s e) = 7 / 10)"
proof -
  show runs: "\<forall>p \<in> set (find_continuous_periods (bloom_mask df)).
      is_run (bloom_mask df) (fst p) (snd p)"
    by (rule find_continuous_periods_runs)
  then have "\<forall>p \<in> set (find_continuous_periods (bloom_mask df)). fst p \<le> snd p \<and> snd p < length df"
    by (auto simp: is_run_def bloom_mask_def)
  from threshold_loop_positions [OF lab this, of "[]"]
  show "threshold_blooms_try df =
      Inr (map (\<lambda>p. run_bloom df (fst p) (snd p))
             (filter (\<lambda>p. fst p + 2 \<le> snd p) (find_continuous_periods (bloom_mask df))))"
    by (simp add: threshold_blooms_try_def)
next
  assume r: "is_run (bloom_mask df) s e"
  then have se: "s \<le> e" "e < length df" by (simp_all add: is_run_def bloom_mask_def)
  let ?bd = "iloc_slice df s (e + 1)"
  let ?xs = "map ndvi_smooth ?bd"
  let ?a = "argmax ?xs"
  have len: "length ?bd = e + 1 - s" using se by (simp add: iloc_slice_def)
  then have ne: "?xs \<noteq> []" using se by auto
  note am = argmax_first [OF ne]
  have nth: "?xs ! k = ndvi_smooth (df ! (s + k))" if "k < length ?bd" for k
    using that se by (simp add: iloc_slice_def)
  have pe: "s + ?a \<le> e" using am(1) len se by simp
  have mx: "ndvi_smooth (df ! (s + ?a)) = Max (set ?xs)"
    using am(1,2) nth [of ?a] by simp
  have before: "\<forall>i. s \<le> i \<and> i < s + ?a \<longrightarrow> ndvi_smooth (df ! i) < ndvi_smooth (df ! (s + ?a))"
  proof (intro allI impI)
    fix i assume i: "s \<le> i \<and> i < s + ?a"
    then have j: "i - s < ?a" by arith
    then have "?xs ! (i - s) < Max (set ?xs)" using am(3) by blast
    moreover have "?xs ! (i - s) = ndvi_smooth (df ! i)"
      using nth [of "i - s"] j am(1) i by simp
    ultimately show "ndvi_smooth (df ! i) < ndvi_smooth (df ! (s + ?a))"
      using mx by simp
  qed
  show "let p = s + argmax (map ndvi_smooth (iloc_slice df s (e + 1))) in
       s \<le> p \<and> p \<le> e \<and>
       ndvi_smooth (df ! p) = Max (set (map ndvi_smooth (iloc_slice df s (e + 1)))) \<and>
       (\<forall>i. s \<le> i \<and> i < p \<longrightarrow> ndvi_smooth (df ! i) < ndvi_smooth (df ! p)) \<and>
       start_date (run_bloom df s e) = date (df ! s) \<and>
       end_date (run_bloom df s e) = date (df ! e) \<and>
       peak_date (run_bloom df s e) = date (df ! p) \<and>
       peak_ndvi (run_bloom df s e) = ndvi_smooth (df ! p) \<and>
       bloom_intensity (run_bloom df s e) = (ndvi_smooth (df ! p) + evi_smooth (df ! p)) / 2 \<and>
       confidence_score (run_bloom df s e) = 7 / 10"
    unfolding Let_def using pe mx before
    by (simp add: run_bloom_def make_bloom_def Let_def)
qed

text \<open>Without its last row the same series makes the offset leave the frame: \<open>iloc\<close> raises
  and the detector returns no candidate at all.\<close>

lemma periods_gap_short: "find_continuous_periods (bloom_mask (butlast df_gap)) = [(0, 4)]"
  by (simp add: find_continuous_periods_def period_step_def bloom_mask_def df_gap_def mk_row_def
      ndvi_bloom_threshold_def evi_bloom_threshold_def)

lemma threshold_gap_short:
  "threshold_blooms_try (butlast df_gap) = Inl IndexError \<and> detect_threshold_blooms (butlast df_gap) = []"
  unfolding detect_threshold_blooms_def threshold_blooms_try_def periods_gap_short
  by (simp add: threshold_bloom_def iloc_def iloc_slice_def
      idxmax_def argmax_def make_bloom_def df_gap_def mk_row_def)

end
